theory Spec2Isabelle
  imports
    Main
    "HOL-Library.AList"
    "HOL-Library.Char_ord"
    "HOL-Library.List_Lexorder"
    "HOL-Library.Product_Lexorder"
begin

section \<open>MelonFire: the pull/push revision engine of index.ts\<close>

text \<open>
  The development embeds the first (current) version of \<^verbatim>\<open>index.ts\<close>: the id codec, the
  revision metadata, the pull merger, the push planner, the inline push, the side-batch
  push with its rollback, and the \<^verbatim>\<open>BatchWriter\<close> class.

  Conventions of the embedding.
  \<^item> A JavaScript string is the list of the bytes of its UTF-8 form (\<open>string\<close>).
  \<^item> A JavaScript object used as a dictionary is the association list of its own
    properties, with distinct keys, in the order in which \<^verbatim>\<open>Object.keys\<close> lists them
    (array-index keys first, ascending; then the other keys in insertion order). Its
    prototype is \<^verbatim>\<open>Object.prototype\<close>, whose property names \<^verbatim>\<open>in\<close> finds as well.
  \<^item> Revisions are JavaScript numbers holding integers (\<open>int\<close>).
  \<^item> An awaited asynchronous call is a sequential step; an exception is a value of
    type \<open>error\<close>; the store and the caller's heap are passed explicitly.
\<close>

subsection \<open>The id codec: encodeURIComponent and decodeURIComponent\<close>

definition unreservedChars :: "string" where
  "unreservedChars =
     ''ABCDEFGHIJKLMNOPQRSTUVWXYZabcdefghijklmnopqrstuvwxyz0123456789-_.!~*()'' @ [CHR 0x27]"

definition hexDigit :: "nat \<Rightarrow> char" where
  "hexDigit n = ''0123456789ABCDEF'' ! (n mod 16)"

definition percentEscape :: "char \<Rightarrow> string" where
  "percentEscape c = [CHR ''%'', hexDigit (of_char c div 16), hexDigit (of_char c mod 16)]"

text \<open>\<^verbatim>\<open>encodeURIComponent\<close>: every octet of the UTF-8 form is escaped, except the
  unreserved ASCII characters.\<close>

fun encodeURIComponent :: "string \<Rightarrow> string" where
  "encodeURIComponent [] = []"
| "encodeURIComponent (c # cs) =
     (if c \<in> set unreservedChars then [c] else percentEscape c) @ encodeURIComponent cs"

definition hexVal :: "char \<Rightarrow> nat option" where
  "hexVal c =
     (let n = (of_char c :: nat) in
      if 48 \<le> n \<and> n \<le> 57 then Some (n - 48)
      else if 65 \<le> n \<and> n \<le> 70 then Some (n - 55)
      else if 97 \<le> n \<and> n \<le> 102 then Some (n - 87)
      else None)"

text \<open>One escape \<^verbatim>\<open>%XX\<close> at the head of the string: its octet and the rest.\<close>

fun escapeOctet :: "string \<Rightarrow> (nat \<times> string) option" where
  "escapeOctet (p # a # b # rest) =
     (if p = CHR ''%'' then
        (case hexVal a of
           None \<Rightarrow> None
         | Some x \<Rightarrow> (case hexVal b of None \<Rightarrow> None | Some y \<Rightarrow> Some (16 * x + y, rest)))
      else None)"
| "escapeOctet _ = None"

fun escapeOctets :: "nat \<Rightarrow> string \<Rightarrow> (nat list \<times> string) option" where
  "escapeOctets 0 s = Some ([], s)"
| "escapeOctets (Suc n) s =
     (case escapeOctet s of
        None \<Rightarrow> None
      | Some (b, rest) \<Rightarrow>
          (case escapeOctets n rest of
             None \<Rightarrow> None
           | Some (bs, rest') \<Rightarrow> Some (b # bs, rest')))"

text \<open>The number of leading 1 bits of a lead octet (5 stands for "more than 4").\<close>

definition leadingOnes :: "nat \<Rightarrow> nat" where
  "leadingOnes b =
     (if b < 128 then 0 else if b < 192 then 1 else if b < 224 then 2
      else if b < 240 then 3 else if b < 248 then 4 else 5)"

definition isContinuation :: "nat \<Rightarrow> bool" where
  "isContinuation b \<longleftrightarrow> 128 \<le> b \<and> b \<le> 191"

text \<open>Well-formed UTF-8 sequences of two, three and four octets (no overlong form, no
  surrogate, nothing beyond U+10FFFF).\<close>

fun validUtf8 :: "nat list \<Rightarrow> bool" where
  "validUtf8 [b0, b1] \<longleftrightarrow> 194 \<le> b0 \<and> b0 \<le> 223 \<and> isContinuation b1"
| "validUtf8 [b0, b1, b2] \<longleftrightarrow>
     isContinuation b2 \<and>
     (if b0 = 224 then 160 \<le> b1 \<and> b1 \<le> 191
      else if b0 = 237 then 128 \<le> b1 \<and> b1 \<le> 159
      else 225 \<le> b0 \<and> b0 \<le> 239 \<and> isContinuation b1)"
| "validUtf8 [b0, b1, b2, b3] \<longleftrightarrow>
     isContinuation b2 \<and> isContinuation b3 \<and>
     (if b0 = 240 then 144 \<le> b1 \<and> b1 \<le> 191
      else if b0 = 244 then 128 \<le> b1 \<and> b1 \<le> 143
      else 241 \<le> b0 \<and> b0 \<le> 243 \<and> isContinuation b1)"
| "validUtf8 _ \<longleftrightarrow> False"

text \<open>One escaped character at the head of the string (which starts with \<^verbatim>\<open>%\<close>): the octets
  it decodes to and the rest; \<open>None\<close> is the URIError of the built-in.\<close>

definition decodeEscaped :: "string \<Rightarrow> (string \<times> string) option" where
  "decodeEscaped s =
     (case escapeOctet s of
        None \<Rightarrow> None
      | Some (b, rest) \<Rightarrow>
          (let n = leadingOnes b in
           if n = 0 then Some ([char_of b], rest)
           else if n = 1 \<or> n > 4 then None
           else (case escapeOctets (n - 1) rest of
                   None \<Rightarrow> None
                 | Some (bs, rest') \<Rightarrow>
                     if validUtf8 (b # bs) then Some (map char_of (b # bs), rest')
                     else None)))"

lemma escapeOctet_shorter: "escapeOctet s = Some (b, rest) \<Longrightarrow> length rest < length s"
  by (induction s rule: escapeOctet.induct) (auto split: if_splits option.splits)

lemma escapeOctets_shorter: "escapeOctets n s = Some (bs, rest) \<Longrightarrow> length rest \<le> length s"
proof (induction n arbitrary: s bs rest)
  case 0
  then show ?case by simp
next
  case (Suc n)
  then show ?case
    by (fastforce split: option.splits dest: escapeOctet_shorter)
qed

lemma decodeEscaped_shorter: "decodeEscaped s = Some (out, rest) \<Longrightarrow> length rest < length s"
  unfolding decodeEscaped_def
  by (auto simp: Let_def split: option.splits if_splits
      dest!: escapeOctet_shorter escapeOctets_shorter)

function decodeURIComponent :: "string \<Rightarrow> string option" where
  "decodeURIComponent [] = Some []"
| "decodeURIComponent (c # cs) =
     (if c \<noteq> CHR ''%'' then map_option ((#) c) (decodeURIComponent cs)
      else (case decodeEscaped (c # cs) of
              None \<Rightarrow> None
            | Some (out, rest) \<Rightarrow> map_option ((@) out) (decodeURIComponent rest)))"
  by pat_completeness auto
termination
  by (relation "measure length") (auto dest: decodeEscaped_shorter)



subsection \<open>JavaScript objects as ordered dictionaries\<close>

type_synonym 'a obj = "(string \<times> 'a) list"

definition isDigit :: "char \<Rightarrow> bool" where
  "isDigit c \<longleftrightarrow> 48 \<le> (of_char c :: nat) \<and> (of_char c :: nat) \<le> 57"

definition decimal :: "string \<Rightarrow> int" where
  "decimal s = foldl (\<lambda>n c. 10 * n + (of_char c - 48)) 0 s"

text \<open>A property key is an array index when it is the canonical decimal form of an
  integer below \<open>2^32 - 1\<close>.\<close>

definition arrayIndex :: "string \<Rightarrow> int option" where
  "arrayIndex s =
     (if s \<noteq> [] \<and> list_all isDigit s \<and> (s = ''0'' \<or> hd s \<noteq> CHR ''0'')
         \<and> decimal s < 4294967295
      then Some (decimal s) else None)"

fun insertIndex :: "int \<Rightarrow> string \<Rightarrow> 'a \<Rightarrow> 'a obj \<Rightarrow> 'a obj" where
  "insertIndex n k v [] = [(k, v)]"
| "insertIndex n k v (p # ps) =
     (case arrayIndex (fst p) of
        None \<Rightarrow> (k, v) # p # ps
      | Some m \<Rightarrow> if m < n then p # insertIndex n k v ps else (k, v) # p # ps)"

text \<open>\<^verbatim>\<open>obj[table] = v\<close> for the objects keyed by table names, whose values are objects:
  \<^verbatim>\<open>obj[table]\<close> reads \<open>v\<close> afterwards. An existing property keeps its place, a new array
  index goes among the indices, any other new key goes last.\<close>

definition objPut :: "string \<Rightarrow> 'a \<Rightarrow> 'a obj \<Rightarrow> 'a obj" where
  "objPut k v ob =
     (if k \<in> fst ` set ob then AList.update k v ob
      else (case arrayIndex k of
              None \<Rightarrow> ob @ [(k, v)]
            | Some n \<Rightarrow> insertIndex n k v ob))"

text \<open>The property names of \<^verbatim>\<open>Object.prototype\<close>, which every object literal inherits.\<close>

definition objectPrototypeNames :: "string list" where
  "objectPrototypeNames =
     [''constructor'', ''__defineGetter__'', ''__defineSetter__'', ''hasOwnProperty'',
      ''__lookupGetter__'', ''__lookupSetter__'', ''isPrototypeOf'', ''propertyIsEnumerable'',
      ''toString'', ''valueOf'', ''__proto__'', ''toLocaleString'']"

text \<open>\<^verbatim>\<open>obj[k] = v\<close> where \<open>k\<close> is an id: \<^verbatim>\<open>__proto__\<close> is the accessor inherited from
  \<^verbatim>\<open>Object.prototype\<close>, so the assignment calls its setter (which sets the prototype when
  \<open>v\<close> is an object and does nothing otherwise) and creates no own property; every other
  key becomes an own property.\<close>

definition ownPut :: "string \<Rightarrow> 'a \<Rightarrow> 'a obj \<Rightarrow> 'a obj" where
  "ownPut k v ob = (if k = ''__proto__'' then ob else objPut k v ob)"

text \<open>\<^verbatim>\<open>k in obj\<close>: an own property, or a property inherited from \<^verbatim>\<open>Object.prototype\<close>.\<close>

definition objHas :: "string \<Rightarrow> 'a obj \<Rightarrow> bool" where
  "objHas k ob \<longleftrightarrow> k \<in> fst ` set ob \<or> k \<in> set objectPrototypeNames"

definition objKeys :: "'a obj \<Rightarrow> string list" where
  "objKeys ob = map fst ob"

definition objValues :: "'a obj \<Rightarrow> 'a list" where
  "objValues ob = map snd ob"

subsection \<open>Rows, documents and the remote store\<close>

text \<open>A row as the adapter sends it and as a table document holds it: \<^verbatim>\<open>id\<close>, the
  WatermelonDB internals \<^verbatim>\<open>_status\<close> and \<^verbatim>\<open>_changed\<close>, the MelonFire fields
  \<^verbatim>\<open>melonFireChange\<close> and \<^verbatim>\<open>melonFireRevision\<close>, and the other columns.\<close>

record row =
  row_id :: string
  status :: "string option"
  changed :: "string option"
  melonFireChange :: "string option"
  melonFireRevision :: "int option"
  columns :: "(string \<times> string) list"

datatype error =
    OutOfSync int int
  | URIError
  | TypeError
  | TransactionFailed
  | InvalidDocumentReference
  | BatchAlreadyCommitted

text \<open>\<^verbatim>\<open>baseDoc\<close> itself, or the side-batch document \<^verbatim>\<open>baseDoc/melonBatches/<token>\<close>.\<close>

datatype root = BaseDoc | BatchDoc string

text \<open>The table document \<^verbatim>\<open><root>/<table>/<docId>\<close>.\<close>

datatype docref = DocRef (refRoot: root) (refTable: string) (refId: string)

type_synonym MelonBatchTokens = "(int \<times> string) list"

record MelonFireBaseDoc =
  melonLatestRevision :: "int option"
  melonLatestDate :: "string option"
  melonBatchTokens :: "MelonBatchTokens option"

type_synonym TableDeletes = "string list obj"

record MelonBatchDoc =
  bd_melonLatestRevision :: int
  bd_melonLatestDate :: string
  bd_deletes :: TableDeletes

record DeleteRecord =
  dr_revision :: int
  dr_deletes :: TableDeletes

text \<open>The documents below \<^verbatim>\<open>baseDoc\<close>: the base document (if it exists), the side-batch
  documents by token, the \<^verbatim>\<open>melonDeletes\<close> documents by auto-id, and the table documents.
  Table names are taken to differ from \<^verbatim>\<open>melonBatches\<close> and \<^verbatim>\<open>melonDeletes\<close>.\<close>

record firestore =
  baseData :: "MelonFireBaseDoc option"
  batchDocs :: "(string \<times> MelonBatchDoc) list"
  deleteDocs :: "(string \<times> DeleteRecord) list"
  tableDocs :: "(docref \<times> row) list"

definition MAX_TRANSACTION_WRITES :: nat where
  "MAX_TRANSACTION_WRITES = 500"

definition MIN_REVISION :: int where
  "MIN_REVISION = 1"

text \<open>\<^verbatim>\<open>root.collection(table).get()\<close>: the documents of a collection, by document id.\<close>

definition collectionDocs :: "firestore \<Rightarrow> root \<Rightarrow> string \<Rightarrow> (string \<times> row) list" where
  "collectionDocs fs r t =
     sort_key fst
       (map (\<lambda>(ref, d). (refId ref, d))
          (filter (\<lambda>(ref, d). refRoot ref = r \<and> refTable ref = t) (tableDocs fs)))"

definition revisionOf :: "row \<Rightarrow> int" where
  "revisionOf d = (case melonFireRevision d of None \<Rightarrow> 0 | Some v \<Rightarrow> v)"

definition revisionKey :: "string \<times> row \<Rightarrow> int \<times> string" where
  "revisionKey p = (revisionOf (snd p), fst p)"

definition revisionIn :: "int \<Rightarrow> int \<Rightarrow> row \<Rightarrow> bool" where
  "revisionIn startRevision endRevision d =
     (case melonFireRevision d of
        None \<Rightarrow> False
      | Some v \<Rightarrow> startRevision \<le> v \<and> v < endRevision)"

text \<open>\<^verbatim>\<open>.where("melonFireRevision", ">=", s).where("melonFireRevision", "<", e)
  .orderBy("melonFireRevision").get()\<close>: the documents that have the field in the range,
  by revision and then by document id.\<close>

definition queryRevisions ::
  "firestore \<Rightarrow> root \<Rightarrow> string \<Rightarrow> int \<Rightarrow> int \<Rightarrow> (string \<times> row) list" where
  "queryRevisions fs r t startRevision endRevision =
     sort_key revisionKey
       (filter (\<lambda>p. revisionIn startRevision endRevision (snd p)) (collectionDocs fs r t))"

text \<open>\<^verbatim>\<open>baseDoc.collection("melonDeletes").where("revision", ">=", s)
  .where("revision", "<", e).get()\<close>.\<close>

definition queryDeletes :: "firestore \<Rightarrow> int \<Rightarrow> int \<Rightarrow> DeleteRecord list" where
  "queryDeletes fs startRevision endRevision =
     map snd
       (sort_key (\<lambda>p. (dr_revision (snd p), fst p))
          (filter (\<lambda>p. startRevision \<le> dr_revision (snd p) \<and> dr_revision (snd p) < endRevision)
             (deleteDocs fs)))"

subsection \<open>Revision metadata\<close>

definition revisionFromBaseSnap ::
  "MelonFireBaseDoc option \<Rightarrow> int \<times> MelonBatchTokens option" where
  "revisionFromBaseSnap snap =
     ((case snap of
         None \<Rightarrow> MIN_REVISION
       | Some existingDoc \<Rightarrow>
           (case melonLatestRevision existingDoc of
              None \<Rightarrow> MIN_REVISION
            | Some v \<Rightarrow> if v \<noteq> 0 then v + 1 else MIN_REVISION)),
      (case snap of None \<Rightarrow> None | Some existingDoc \<Rightarrow> melonBatchTokens existingDoc))"

subsection \<open>The pull merger\<close>

definition removeWatermelonInternals :: "row \<Rightarrow> row" where
  "removeWatermelonInternals ob = ob\<lparr>status := None, changed := None\<rparr>"

definition removeMelonFields :: "row \<Rightarrow> row" where
  "removeMelonFields record = record\<lparr>melonFireChange := None, melonFireRevision := None\<rparr>"

record loadEntry =
  le_updated :: "row obj"
  le_deleted :: "bool obj"

type_synonym ChangeLoadMap = "loadEntry obj"

text \<open>The body of \<^verbatim>\<open>refs.docs.forEach\<close> in \<^verbatim>\<open>mergeCreatesAndUpdates\<close>, over the documents
  of one query; \<^verbatim>\<open>decodeURIComponent\<close> is applied to the \<^verbatim>\<open>id\<close> field of the stored row.\<close>

fun mergeDocs :: "row list \<Rightarrow> row obj \<Rightarrow> error + row obj" where
  "mergeDocs [] upd = Inr upd"
| "mergeDocs (storedData # ds) upd =
     (let rec = removeMelonFields (removeWatermelonInternals storedData) in
      case decodeURIComponent (row_id rec) of
        None \<Rightarrow> Inl URIError
      | Some k \<Rightarrow> mergeDocs ds (ownPut k rec upd))"


definition mergeTable ::
  "firestore \<Rightarrow> root \<Rightarrow> int \<Rightarrow> int \<Rightarrow> string \<Rightarrow> ChangeLoadMap \<Rightarrow> error + ChangeLoadMap" where
  "mergeTable fs r startRevision endRevision t changeMap =
     (let docs = map snd (queryRevisions fs r t startRevision endRevision) in
      if docs = [] then Inr changeMap
      else (case map_of changeMap t of
              None \<Rightarrow> Inl TypeError
            | Some entry \<Rightarrow>
                (case mergeDocs docs (le_updated entry) of
                   Inl err \<Rightarrow> Inl err
                 | Inr upd \<Rightarrow> Inr (AList.update t (entry\<lparr>le_updated := upd\<rparr>) changeMap))))"

fun mergeCreatesAndUpdates ::
  "firestore \<Rightarrow> root \<Rightarrow> int \<Rightarrow> int \<Rightarrow> string list \<Rightarrow> ChangeLoadMap \<Rightarrow> error + ChangeLoadMap" where
  "mergeCreatesAndUpdates fs r startRevision endRevision [] changeMap = Inr changeMap"
| "mergeCreatesAndUpdates fs r startRevision endRevision (t # ts) changeMap =
     (case mergeTable fs r startRevision endRevision t changeMap of
        Inl err \<Rightarrow> Inl err
      | Inr changeMap' \<Rightarrow> mergeCreatesAndUpdates fs r startRevision endRevision ts changeMap')"

text \<open>\<^verbatim>\<open>ids.forEach(id => (changeMap[table].deleted[decodeURIComponent(id)] = true))\<close>.\<close>

fun markIds :: "string list \<Rightarrow> bool obj \<Rightarrow> error + bool obj" where
  "markIds [] del = Inr del"
| "markIds (i # ids) del =
     (case decodeURIComponent i of
        None \<Rightarrow> Inl URIError
      | Some k \<Rightarrow> markIds ids (ownPut k True del))"

text \<open>\<^verbatim>\<open>Object.keys(deletes).forEach(table => deletes[table].forEach(...))\<close>.\<close>

fun markDeletes :: "TableDeletes \<Rightarrow> ChangeLoadMap \<Rightarrow> error + ChangeLoadMap" where
  "markDeletes [] changeMap = Inr changeMap"
| "markDeletes ((t, ids) # rest) changeMap =
     (if ids = [] then markDeletes rest changeMap
      else (case map_of changeMap t of
              None \<Rightarrow> Inl TypeError
            | Some entry \<Rightarrow>
                (case markIds ids (le_deleted entry) of
                   Inl err \<Rightarrow> Inl err
                 | Inr del \<Rightarrow>
                     markDeletes rest (AList.update t (entry\<lparr>le_deleted := del\<rparr>) changeMap))))"

fun markRecords :: "DeleteRecord list \<Rightarrow> ChangeLoadMap \<Rightarrow> error + ChangeLoadMap" where
  "markRecords [] changeMap = Inr changeMap"
| "markRecords (record # records) changeMap =
     (case markDeletes (dr_deletes record) changeMap of
        Inl err \<Rightarrow> Inl err
      | Inr changeMap' \<Rightarrow> markRecords records changeMap')"

definition hasToken :: "MelonBatchTokens option \<Rightarrow> int \<Rightarrow> bool" where
  "hasToken batchTokens e =
     (case batchTokens of None \<Rightarrow> False | Some m \<Rightarrow> map_of m e \<noteq> None)"

text \<open>The inner loop of \<^verbatim>\<open>pullChanges\<close>: \<^verbatim>\<open>end\<close> moves on while no side-batch is
  registered for it and it is below \<^verbatim>\<open>endRevision\<close>.\<close>

function advanceEnd :: "MelonBatchTokens option \<Rightarrow> int \<Rightarrow> int \<Rightarrow> int" where
  "advanceEnd batchTokens endRevision e =
     (if \<not> hasToken batchTokens e \<and> e < endRevision
      then advanceEnd batchTokens endRevision (e + 1) else e)"
  by pat_completeness auto
termination
  by (relation "measure (\<lambda>(batchTokens, endRevision, e). nat (endRevision - e))") auto

declare advanceEnd.simps [simp del]

lemma advanceEnd_ge: "e \<le> advanceEnd batchTokens endRevision e"
proof (induction batchTokens endRevision e rule: advanceEnd.induct)
  case (1 batchTokens endRevision e)
  show ?case
  proof (cases "\<not> hasToken batchTokens e \<and> e < endRevision")
    case True
    with "1" have "e + 1 \<le> advanceEnd batchTokens endRevision (e + 1)" by blast
    with True show ?thesis by (subst advanceEnd.simps) simp
  next
    case False
    then show ?thesis by (subst advanceEnd.simps) auto
  qed
qed

text \<open>The side-batch branch of the outer loop, for the revision \<^verbatim>\<open>start\<close>.\<close>

definition pullBatch ::
  "firestore \<Rightarrow> string list \<Rightarrow> MelonBatchTokens option \<Rightarrow> int \<Rightarrow> ChangeLoadMap
   \<Rightarrow> error + ChangeLoadMap" where
  "pullBatch fs tables batchTokens start changeMap =
     (case batchTokens of
        None \<Rightarrow> Inl TypeError
      | Some m \<Rightarrow>
          (case map_of m start of
             None \<Rightarrow> Inl TypeError
           | Some token \<Rightarrow>
               (case mergeCreatesAndUpdates fs (BatchDoc token) start (start + 1) tables changeMap of
                  Inl err \<Rightarrow> Inl err
                | Inr changeMap' \<Rightarrow>
                    (case map_of (batchDocs fs) token of
                       None \<Rightarrow> Inl TypeError
                     | Some rootDoc \<Rightarrow> markDeletes (bd_deletes rootDoc) changeMap'))))"

text \<open>The base-document branch, for the run of revisions from \<^verbatim>\<open>start\<close> up to \<^verbatim>\<open>end\<close>.\<close>

definition pullBase ::
  "firestore \<Rightarrow> string list \<Rightarrow> int \<Rightarrow> int \<Rightarrow> ChangeLoadMap \<Rightarrow> error + ChangeLoadMap" where
  "pullBase fs tables start e changeMap =
     (case mergeCreatesAndUpdates fs BaseDoc start e tables changeMap of
        Inl err \<Rightarrow> Inl err
      | Inr changeMap' \<Rightarrow> markRecords (queryDeletes fs start e) changeMap')"

function pullLoop ::
  "firestore \<Rightarrow> string list \<Rightarrow> MelonBatchTokens option \<Rightarrow> int \<Rightarrow> int \<Rightarrow> ChangeLoadMap
   \<Rightarrow> error + ChangeLoadMap" where
  "pullLoop fs tables batchTokens endRevision start changeMap =
     (if start < endRevision then
        (if advanceEnd batchTokens endRevision start = start then
           (case pullBatch fs tables batchTokens start changeMap of
              Inl err \<Rightarrow> Inl err
            | Inr changeMap' \<Rightarrow>
                pullLoop fs tables batchTokens endRevision (start + 1) changeMap')
         else
           (case pullBase fs tables start (advanceEnd batchTokens endRevision start) changeMap of
              Inl err \<Rightarrow> Inl err
            | Inr changeMap' \<Rightarrow>
                pullLoop fs tables batchTokens endRevision
                  (advanceEnd batchTokens endRevision start) changeMap'))
      else Inr changeMap)"
  by pat_completeness auto
termination
proof (relation "measure (\<lambda>(fs, tables, batchTokens, endRevision, start, changeMap).
                   nat (endRevision - start))", goal_cases)
  case 1
  show ?case by simp
next
  case (2 fs tables batchTokens endRevision start changeMap x2)
  then show ?case by simp
next
  case (3 fs tables batchTokens endRevision start changeMap x2)
  moreover have "start \<le> advanceEnd batchTokens endRevision start"
    by (rule advanceEnd_ge)
  ultimately show ?case by simp
qed

declare pullLoop.simps [simp del]

record 'r tableChanges =
  created :: "'r list"
  updated :: "'r list"
  deleted :: "string list"

record SyncPullResult =
  changes :: "row tableChanges obj"
  timestamp :: int

definition emptyEntry :: loadEntry where
  "emptyEntry = \<lparr>le_updated = [], le_deleted = []\<rparr>"

text \<open>\<^verbatim>\<open>tables.forEach(table => { changeMap[table] = { updated: {}, deleted: {} } })\<close>.\<close>

definition initChangeMap :: "string list \<Rightarrow> ChangeLoadMap" where
  "initChangeMap tables = fold (\<lambda>t changeMap. objPut t emptyEntry changeMap) tables []"

definition tableResult :: "loadEntry \<Rightarrow> row tableChanges" where
  "tableResult entry =
     \<lparr>created = [],
      updated = filter (\<lambda>r. \<not> objHas (row_id r) (le_deleted entry)) (objValues (le_updated entry)),
      deleted = objKeys (le_deleted entry)\<rparr>"

text \<open>The final \<^verbatim>\<open>tables.forEach\<close> of \<^verbatim>\<open>pullChanges\<close>.\<close>

fun buildChanges ::
  "string list \<Rightarrow> ChangeLoadMap \<Rightarrow> row tableChanges obj \<Rightarrow> error + row tableChanges obj" where
  "buildChanges [] changeMap acc = Inr acc"
| "buildChanges (t # ts) changeMap acc =
     (case map_of changeMap t of
        None \<Rightarrow> Inl TypeError
      | Some entry \<Rightarrow> buildChanges ts changeMap (objPut t (tableResult entry) acc))"

definition pullChanges :: "firestore \<Rightarrow> string list \<Rightarrow> int option \<Rightarrow> error + SyncPullResult" where
  "pullChanges fs tables lastPulledAt =
     (let startRevision = (case lastPulledAt of None \<Rightarrow> MIN_REVISION | Some v \<Rightarrow> v);
          (endRevision, batchTokens) = revisionFromBaseSnap (baseData fs)
      in case pullLoop fs tables batchTokens endRevision startRevision (initChangeMap tables) of
           Inl err \<Rightarrow> Inl err
         | Inr changeMap \<Rightarrow>
             (case buildChanges tables changeMap [] of
                Inl err \<Rightarrow> Inl err
              | Inr chs \<Rightarrow> Inr \<lparr>changes = chs, timestamp = endRevision\<rparr>))"

subsection \<open>Writes, write batches and transactions of the store\<close>

text \<open>A write queued in a write batch or in a transaction. \<open>MergeBase\<close> is
  \<^verbatim>\<open>set(baseDoc, {melonLatestRevision, melonLatestDate, melonBatchTokens?}, {merge: true})\<close>.\<close>

datatype writeOp =
    SetRow docref row
  | DeleteRow docref
  | SetDeleteRecord string DeleteRecord
  | SetBatchDoc string MelonBatchDoc
  | MergeBase int string "MelonBatchTokens option"

definition mergeTokens :: "MelonBatchTokens \<Rightarrow> MelonBatchTokens \<Rightarrow> MelonBatchTokens" where
  "mergeTokens new old = fold (\<lambda>(k, v). AList.update k v) new old"

definition mergeBase ::
  "int \<Rightarrow> string \<Rightarrow> MelonBatchTokens option \<Rightarrow> MelonFireBaseDoc option \<Rightarrow> MelonFireBaseDoc" where
  "mergeBase revision date tokens existing =
     \<lparr>melonLatestRevision = Some revision,
      melonLatestDate = Some date,
      melonBatchTokens =
        (case tokens of
           None \<Rightarrow> (case existing of None \<Rightarrow> None | Some d \<Rightarrow> melonBatchTokens d)
         | Some new \<Rightarrow>
             (case existing of
                None \<Rightarrow> Some new
              | Some d \<Rightarrow>
                  (case melonBatchTokens d of
                     None \<Rightarrow> Some new
                   | Some old \<Rightarrow> Some (mergeTokens new old))))\<rparr>"

fun applyWrite :: "writeOp \<Rightarrow> firestore \<Rightarrow> firestore" where
  "applyWrite (SetRow ref d) fs = fs\<lparr>tableDocs := AList.update ref d (tableDocs fs)\<rparr>"
| "applyWrite (DeleteRow ref) fs = fs\<lparr>tableDocs := AList.delete ref (tableDocs fs)\<rparr>"
| "applyWrite (SetDeleteRecord i record) fs =
     fs\<lparr>deleteDocs := AList.update i record (deleteDocs fs)\<rparr>"
| "applyWrite (SetBatchDoc token d) fs = fs\<lparr>batchDocs := AList.update token d (batchDocs fs)\<rparr>"
| "applyWrite (MergeBase revision date tokens) fs =
     fs\<lparr>baseData := Some (mergeBase revision date tokens (baseData fs))\<rparr>"

definition applyWrites :: "writeOp list \<Rightarrow> firestore \<Rightarrow> firestore" where
  "applyWrites ws fs = fold applyWrite ws fs"

text \<open>The caller's heap of row objects (a row is referred to by its address), the remote
  store, and the log of the write batches and transactions committed so far.\<close>

record world =
  w_heap :: "row list"
  w_store :: firestore
  w_commits :: "writeOp list list"

definition commitWrites :: "writeOp list \<Rightarrow> world \<Rightarrow> world" where
  "commitWrites ws w =
     w\<lparr>w_store := applyWrites ws (w_store w), w_commits := w_commits w @ [ws]\<rparr>"

text \<open>What the environment decides: the auto-ids of \<^verbatim>\<open>collection.doc()\<close>, the date, and
  whether the store rejects the transaction of this push.\<close>

record env =
  newBatchId :: string
  newDeleteId :: string
  nowISO :: string
  transactionFails :: bool

text \<open>A \<^verbatim>\<open>WriteBatch\<close> of the store: \<^verbatim>\<open>set\<close>, \<^verbatim>\<open>delete\<close> and \<^verbatim>\<open>commit\<close> throw once
  \<^verbatim>\<open>commit\<close> has been called, and \<^verbatim>\<open>delete\<close> throws unless its argument is a document
  reference.\<close>

record WriteBatch =
  wb_writes :: "writeOp list"
  wb_committed :: bool

definition newWriteBatch :: WriteBatch where
  "newWriteBatch = \<lparr>wb_writes = [], wb_committed = False\<rparr>"

datatype refArg = OneRef docref | RefArray "docref list"

definition wbSet :: "docref \<Rightarrow> row \<Rightarrow> WriteBatch \<Rightarrow> error + WriteBatch" where
  "wbSet ref d b =
     (if wb_committed b then Inl BatchAlreadyCommitted
      else Inr (b\<lparr>wb_writes := wb_writes b @ [SetRow ref d]\<rparr>))"

fun wbDelete :: "refArg \<Rightarrow> WriteBatch \<Rightarrow> error + WriteBatch" where
  "wbDelete (OneRef ref) b =
     (if wb_committed b then Inl BatchAlreadyCommitted
      else Inr (b\<lparr>wb_writes := wb_writes b @ [DeleteRow ref]\<rparr>))"
| "wbDelete (RefArray refs) b =
     (if wb_committed b then Inl BatchAlreadyCommitted else Inl InvalidDocumentReference)"

text \<open>\<^verbatim>\<open>for (const ref of refs) batch.delete(ref)\<close>.\<close>

fun wbDeletes :: "refArg list \<Rightarrow> WriteBatch \<Rightarrow> error + WriteBatch" where
  "wbDeletes [] b = Inr b"
| "wbDeletes (a # as) b =
     (case wbDelete a b of Inl err \<Rightarrow> Inl err | Inr b' \<Rightarrow> wbDeletes as b')"

definition wbCommit :: "WriteBatch \<Rightarrow> world \<Rightarrow> error + (WriteBatch \<times> world)" where
  "wbCommit b w =
     (if wb_committed b then Inl BatchAlreadyCommitted
      else Inr (b\<lparr>wb_committed := True\<rparr>, commitWrites (wb_writes b) w))"

subsection \<open>The BatchWriter class\<close>

record BatchWriter =
  bw_batch :: WriteBatch
  bw_count :: nat
  bw_doc :: string
  bw_revision :: int

definition newBatchWriter :: "string \<Rightarrow> int \<Rightarrow> BatchWriter" where
  "newBatchWriter token revision =
     \<lparr>bw_batch = newWriteBatch, bw_count = 0, bw_doc = token, bw_revision = revision\<rparr>"

type_synonym writerState = "BatchWriter \<times> world"

text \<open>\<^verbatim>\<open>await this.flushBatch()\<close>: the commit, then a fresh batch and the count at 0.\<close>

definition flushBatch :: "writerState \<Rightarrow> error option \<times> writerState" where
  "flushBatch st =
     (case wbCommit (bw_batch (fst st)) (snd st) of
        Inl err \<Rightarrow> (Some err, st)
      | Inr (b, w) \<Rightarrow> (None, ((fst st)\<lparr>bw_batch := newWriteBatch, bw_count := 0\<rparr>, w)))"

text \<open>\<^verbatim>\<open>this.flushBatch()\<close> without \<^verbatim>\<open>await\<close>, as in the block loop of \<^verbatim>\<open>deleted\<close>: the call
  runs up to \<^verbatim>\<open>this.batch.commit()\<close> and returns a promise nobody waits for. The rest of
  \<^verbatim>\<open>flushBatch\<close> (the fresh batch, the count at 0) runs only once the store has answered,
  which is after the synchronous loop and after the writer's next use; it is not part of
  this step. A rejection of the promise is not observed.\<close>

definition flushBatchDetached :: "writerState \<Rightarrow> writerState" where
  "flushBatchDetached st =
     (case wbCommit (bw_batch (fst st)) (snd st) of
        Inl err \<Rightarrow> st
      | Inr (b, w) \<Rightarrow> ((fst st)\<lparr>bw_batch := b\<rparr>, w))"

definition bumpCount :: "writerState \<Rightarrow> error option \<times> writerState" where
  "bumpCount st =
     (let bw = (fst st)\<lparr>bw_count := bw_count (fst st) + 1\<rparr> in
      if bw_count bw = MAX_TRANSACTION_WRITES then flushBatch (bw, snd st)
      else (None, (bw, snd st)))"

definition flush :: "writerState \<Rightarrow> error option \<times> writerState" where
  "flush st = flushBatch st"

text \<open>The private method \<^verbatim>\<open>write\<close>; \<open>record\<close> is the row object as it is at the call.\<close>

definition bw_write :: "string \<Rightarrow> row \<Rightarrow> writerState \<Rightarrow> error option \<times> writerState" where
  "bw_write t record st =
     (let ref = DocRef (BatchDoc (bw_doc (fst st))) t (encodeURIComponent (row_id record));
          data = record\<lparr>melonFireRevision := Some (bw_revision (fst st))\<rparr>
      in case wbSet ref data (bw_batch (fst st)) of
           Inl err \<Rightarrow> (Some err, st)
         | Inr b \<Rightarrow> bumpCount ((fst st)\<lparr>bw_batch := b\<rparr>, snd st))"

definition bw_created :: "string \<Rightarrow> row \<Rightarrow> writerState \<Rightarrow> error option \<times> writerState" where
  "bw_created t record st = bw_write t record st"

definition bw_updated :: "string \<Rightarrow> row \<Rightarrow> writerState \<Rightarrow> error option \<times> writerState" where
  "bw_updated t record st = bw_write t record st"

text \<open>The body of the block loop of \<^verbatim>\<open>deleted\<close> for one block: the deletes are
  queued, the count grows, and at \<^verbatim>\<open>MAX_TRANSACTION_WRITES\<close> the batch is flushed without
  waiting.\<close>

definition deleteBlock :: "docref list \<Rightarrow> writerState \<Rightarrow> error + writerState" where
  "deleteBlock block st =
     (case wbDeletes (map OneRef block) (bw_batch (fst st)) of
        Inl err \<Rightarrow> Inl err
      | Inr b \<Rightarrow>
          (let bw = (fst st)\<lparr>bw_batch := b, bw_count := bw_count (fst st) + length block\<rparr>
           in Inr (if bw_count bw = MAX_TRANSACTION_WRITES
                   then flushBatchDetached (bw, snd st) else (bw, snd st))))"

text \<open>The block loop of \<^verbatim>\<open>deleted\<close>, from \<^verbatim>\<open>iBlock\<close> on; the loop test
  \<^verbatim>\<open>iBlock < restRefs.length / MAX_TRANSACTION_WRITES + 1\<close> is a test on real numbers.\<close>

function deleteBlocks :: "docref list \<Rightarrow> nat \<Rightarrow> writerState \<Rightarrow> error option \<times> writerState" where
  "deleteBlocks restRefs iBlock st =
     (if iBlock * MAX_TRANSACTION_WRITES < length restRefs + MAX_TRANSACTION_WRITES then
        (case deleteBlock (take MAX_TRANSACTION_WRITES
                             (drop (iBlock * MAX_TRANSACTION_WRITES) restRefs)) st of
           Inl err \<Rightarrow> (Some err, st)
         | Inr st' \<Rightarrow> deleteBlocks restRefs (iBlock + 1) st')
      else (None, st))"
  by pat_completeness auto
termination
  by (relation "measure (\<lambda>(restRefs, iBlock, st).
          length restRefs + MAX_TRANSACTION_WRITES - iBlock * MAX_TRANSACTION_WRITES)")
     (auto simp: MAX_TRANSACTION_WRITES_def)

declare deleteBlocks.simps [simp del]

definition bw_deleted :: "docref list \<Rightarrow> writerState \<Rightarrow> error option \<times> writerState" where
  "bw_deleted refs st =
     (let headCount = min (length refs) (MAX_TRANSACTION_WRITES - bw_count (fst st))
      in case wbDeletes (map OneRef (take headCount refs)) (bw_batch (fst st)) of
           Inl err \<Rightarrow> (Some err, st)
         | Inr b \<Rightarrow>
             (let bw = (fst st)\<lparr>bw_batch := b, bw_count := bw_count (fst st) + headCount\<rparr>;
                  restRefs = drop headCount refs
              in if bw_count bw = MAX_TRANSACTION_WRITES then
                   (case flushBatch (bw, snd st) of
                      (Some err, st') \<Rightarrow> (Some err, st')
                    | (None, st') \<Rightarrow> deleteBlocks restRefs 0 st')
                 else (None, (bw, snd st))))"

subsection \<open>The push planner\<close>

type_synonym SyncDatabaseChangeSet = "nat tableChanges obj"

record DeleteRef =
  dref_ref :: docref
  dref_id :: string

type_synonym AllDeleteRefs = "DeleteRef list obj"

text \<open>\<^verbatim>\<open>snaps.filter(snap => snap.exists).map(snap => ({ref: snap.ref,
  id: encodeURIComponent(snap.data().id)}))\<close> for the snapshots of the given references.\<close>

definition existingRefs :: "firestore \<Rightarrow> docref list \<Rightarrow> DeleteRef list" where
  "existingRefs fs refs =
     concat (map (\<lambda>ref. case map_of (tableDocs fs) ref of
                          None \<Rightarrow> []
                        | Some d \<Rightarrow> [\<lparr>dref_ref = ref, dref_id = encodeURIComponent (row_id d)\<rparr>])
                 refs)"

text \<open>\<^verbatim>\<open>baseDoc.collection("melonBatches").get()\<close>: the tokens of the side-batch documents.\<close>

definition batchSnaps :: "firestore \<Rightarrow> string list" where
  "batchSnaps fs = map fst (sort_key fst (batchDocs fs))"

text \<open>The body of the loop of \<^verbatim>\<open>findDeleteRefs\<close> for one table.\<close>

definition findTableDeleteRefs ::
  "firestore \<Rightarrow> string \<Rightarrow> string list \<Rightarrow> AllDeleteRefs \<Rightarrow> AllDeleteRefs" where
  "findTableDeleteRefs fs t deletedIds delRefs =
     (let baseExists =
            existingRefs fs (map (\<lambda>i. DocRef BaseDoc t (encodeURIComponent i)) deletedIds);
          delRefs1 = (if baseExists \<noteq> [] then objPut t baseExists delRefs else delRefs);
          delInBatchExists =
            existingRefs fs
              (concat (map (\<lambda>i. map (\<lambda>token. DocRef (BatchDoc token) t (encodeURIComponent i))
                                  (batchSnaps fs)) deletedIds))
      in if delInBatchExists \<noteq> [] then
           (case map_of delRefs1 t of
              Some refs \<Rightarrow> AList.update t (refs @ delInBatchExists) delRefs1
            | None \<Rightarrow> objPut t delInBatchExists delRefs1)
         else delRefs1)"

fun findDeleteRefsFrom ::
  "firestore \<Rightarrow> SyncDatabaseChangeSet \<Rightarrow> AllDeleteRefs \<Rightarrow> AllDeleteRefs" where
  "findDeleteRefsFrom fs [] delRefs = delRefs"
| "findDeleteRefsFrom fs (p # rest) delRefs =
     findDeleteRefsFrom fs rest (findTableDeleteRefs fs (fst p) (deleted (snd p)) delRefs)"

definition findDeleteRefs :: "firestore \<Rightarrow> SyncDatabaseChangeSet \<Rightarrow> AllDeleteRefs" where
  "findDeleteRefs fs chs = findDeleteRefsFrom fs chs []"

definition countChanges :: "'r tableChanges obj \<Rightarrow> nat \<Rightarrow> nat" where
  "countChanges chs deleteCount =
     (let tableCounts = map (\<lambda>p. length (created (snd p)) + length (updated (snd p))) chs
      in fold (\<lambda>cur prev. prev + cur) tableCounts 0
           + (if deleteCount > 0 then deleteCount + 1 else 0))"

definition delChanges :: "AllDeleteRefs \<Rightarrow> nat" where
  "delChanges delRefs = fold (\<lambda>p n. n + length (snd p)) delRefs 0"

subsection \<open>The inline push\<close>

definition outOfSync :: "int \<Rightarrow> int \<Rightarrow> error" where
  "outOfSync lastPulledAt revision = OutOfSync (lastPulledAt - 1) revision"

text \<open>\<^verbatim>\<open>removeWatermelonInternals\<close> on the object at an address: the two fields are deleted
  in place.\<close>

definition removeWatermelonInternalsAt :: "row list \<Rightarrow> nat \<Rightarrow> row list" where
  "removeWatermelonInternalsAt h a = h[a := removeWatermelonInternals (h ! a)]"

text \<open>\<^verbatim>\<open>storeRawInTrans\<close>: \<^verbatim>\<open>rawRec\<close> is a new object (the spread of \<^verbatim>\<open>raw\<close> with
  \<^verbatim>\<open>melonFireRevision\<close>), allocated at the end of the heap; the internals are removed from
  that object, and the result is set in the transaction.\<close>

definition storeRawInTrans ::
  "string \<Rightarrow> int \<Rightarrow> nat \<Rightarrow> row list \<times> writeOp list \<Rightarrow> row list \<times> writeOp list" where
  "storeRawInTrans t revision raw st =
     (let h = fst st;
          rawRec = length h;
          h1 = h @ [(h ! raw)\<lparr>melonFireRevision := Some revision\<rparr>];
          h2 = removeWatermelonInternalsAt h1 rawRec;
          rec = h2 ! rawRec
      in (h2, snd st @ [SetRow (DocRef BaseDoc t (encodeURIComponent (row_id rec))) rec]))"

text \<open>The body of \<^verbatim>\<open>Object.keys(changes).forEach\<close> in \<^verbatim>\<open>pushAllChanges\<close> for one table; the
  state is the heap, the writes of the transaction and \<^verbatim>\<open>tableDeletes\<close>.\<close>

definition pushTableInTrans ::
  "int \<Rightarrow> AllDeleteRefs \<Rightarrow> string \<times> nat tableChanges
   \<Rightarrow> (row list \<times> writeOp list) \<times> TableDeletes \<Rightarrow> (row list \<times> writeOp list) \<times> TableDeletes" where
  "pushTableInTrans revision delRefs p st =
     (let t = fst p;
          st1 = fold (storeRawInTrans t revision) (created (snd p)) (fst st);
          st2 = fold (storeRawInTrans t revision) (updated (snd p)) st1
      in case map_of delRefs t of
           None \<Rightarrow> (st2, snd st)
         | Some refs \<Rightarrow>
             ((fst st2, snd st2 @ map (\<lambda>delRef. DeleteRow (dref_ref delRef)) refs),
              objPut t (map dref_id refs) (snd st)))"

definition pushAllChanges ::
  "env \<Rightarrow> int \<Rightarrow> SyncDatabaseChangeSet \<Rightarrow> AllDeleteRefs \<Rightarrow> world \<Rightarrow> error option \<times> world" where
  "pushAllChanges ev lastPulledAt chs delRefs w =
     (let revision = fst (revisionFromBaseSnap (baseData (w_store w)))
      in if revision \<noteq> lastPulledAt then (Some (outOfSync lastPulledAt revision), w)
         else
           (let ((h, ws), tableDeletes) =
                  fold (pushTableInTrans revision delRefs) chs ((w_heap w, []), []);
                ws1 = (if tableDeletes \<noteq> []
                       then ws @ [SetDeleteRecord (newDeleteId ev)
                                    \<lparr>dr_revision = revision, dr_deletes = tableDeletes\<rparr>]
                       else ws);
                ws2 = ws1 @ [MergeBase revision (nowISO ev) None]
            in if transactionFails ev then (Some TransactionFailed, w\<lparr>w_heap := h\<rparr>)
               else (None, commitWrites ws2 (w\<lparr>w_heap := h\<rparr>))))"

subsection \<open>The side-batch push\<close>

text \<open>One row of the staging loops: the internals are removed from the caller's object,
  which is then handed to the writer.\<close>

definition stageRow ::
  "string \<Rightarrow> nat \<Rightarrow> writerState \<Rightarrow> error option \<times> writerState" where
  "stageRow t raw st =
     (let w = snd st;
          h = removeWatermelonInternalsAt (w_heap w) raw
      in bw_write t (h ! raw) (fst st, w\<lparr>w_heap := h\<rparr>))"

fun stageRows :: "string \<Rightarrow> nat list \<Rightarrow> writerState \<Rightarrow> error option \<times> writerState" where
  "stageRows t [] st = (None, st)"
| "stageRows t (raw # raws) st =
     (case stageRow t raw st of
        (Some err, st') \<Rightarrow> (Some err, st')
      | (None, st') \<Rightarrow> stageRows t raws st')"

text \<open>The body of the staging loop for one table; the state carries \<^verbatim>\<open>deletes\<close>.\<close>

definition stageTable ::
  "AllDeleteRefs \<Rightarrow> string \<times> nat tableChanges \<Rightarrow> writerState \<times> TableDeletes
   \<Rightarrow> error option \<times> writerState \<times> TableDeletes" where
  "stageTable delRefs p st =
     (let t = fst p in
      case stageRows t (created (snd p)) (fst st) of
        (Some err, st1) \<Rightarrow> (Some err, st1, snd st)
      | (None, st1) \<Rightarrow>
          (case stageRows t (updated (snd p)) st1 of
             (Some err, st2) \<Rightarrow> (Some err, st2, snd st)
           | (None, st2) \<Rightarrow>
               (case map_of delRefs t of
                  None \<Rightarrow> (None, st2, snd st)
                | Some refs \<Rightarrow>
                    (case bw_deleted (map dref_ref refs) st2 of
                       (err, st3) \<Rightarrow> (err, st3, objPut t (map dref_id refs) (snd st))))))"

fun stageTables ::
  "AllDeleteRefs \<Rightarrow> SyncDatabaseChangeSet \<Rightarrow> writerState \<times> TableDeletes
   \<Rightarrow> error option \<times> writerState \<times> TableDeletes" where
  "stageTables delRefs [] st = (None, st)"
| "stageTables delRefs (p # ps) st =
     (case stageTable delRefs p st of
        (Some err, st') \<Rightarrow> (Some err, st')
      | (None, st') \<Rightarrow> stageTables delRefs ps st')"

text \<open>The body of the rollback loop for one block: a fresh write batch, one
  \<^verbatim>\<open>batch.delete\<close> for each element of the block, and the commit. Each element of
  \<^verbatim>\<open>rollbackRefs\<close> is the array of the references of one table.\<close>

definition rollbackBlock :: "docref list list \<Rightarrow> world \<Rightarrow> error + world" where
  "rollbackBlock block w =
     (case wbDeletes (map RefArray block) newWriteBatch of
        Inl err \<Rightarrow> Inl err
      | Inr b \<Rightarrow> (case wbCommit b w of Inl err \<Rightarrow> Inl err | Inr (b', w') \<Rightarrow> Inr w'))"

function rollbackBlocks :: "docref list list \<Rightarrow> nat \<Rightarrow> world \<Rightarrow> error option \<times> world" where
  "rollbackBlocks rollbackRefs iBlock w =
     (if iBlock * MAX_TRANSACTION_WRITES < length rollbackRefs + MAX_TRANSACTION_WRITES then
        (case rollbackBlock (take MAX_TRANSACTION_WRITES
                               (drop (iBlock * MAX_TRANSACTION_WRITES) rollbackRefs)) w of
           Inl err \<Rightarrow> (Some err, w)
         | Inr w' \<Rightarrow> rollbackBlocks rollbackRefs (iBlock + 1) w')
      else (None, w))"
  by pat_completeness auto
termination
  by (relation "measure (\<lambda>(rollbackRefs, iBlock, w).
          length rollbackRefs + MAX_TRANSACTION_WRITES - iBlock * MAX_TRANSACTION_WRITES)")
     (auto simp: MAX_TRANSACTION_WRITES_def)

declare rollbackBlocks.simps [simp del]

definition rollback ::
  "string \<Rightarrow> SyncDatabaseChangeSet \<Rightarrow> error \<Rightarrow> world \<Rightarrow> error option \<times> world" where
  "rollback token chs err w =
     (let rollbackRefs =
            map (\<lambda>p. map (\<lambda>q. DocRef (BatchDoc token) (fst p) (fst q))
                       (collectionDocs (w_store w) (BatchDoc token) (fst p))) chs
      in case rollbackBlocks rollbackRefs 0 w of
           (Some err', w') \<Rightarrow> (Some err', w')
         | (None, w') \<Rightarrow> (Some err, w'))"

text \<open>The integrating transaction of \<^verbatim>\<open>pushBatchedChanges\<close>: the writes it commits, or the
  error it throws.\<close>

definition integrate ::
  "env \<Rightarrow> int \<Rightarrow> int \<Rightarrow> MelonBatchTokens option \<Rightarrow> TableDeletes \<Rightarrow> error + writeOp list" where
  "integrate ev lastPulledAt revision batchTokens deletes =
     (if revision \<noteq> lastPulledAt then Inl (outOfSync lastPulledAt revision)
      else if transactionFails ev then Inl TransactionFailed
      else Inr [SetBatchDoc (newBatchId ev)
                  \<lparr>bd_melonLatestRevision = revision, bd_melonLatestDate = nowISO ev,
                   bd_deletes = deletes\<rparr>,
                MergeBase revision (nowISO ev)
                  (Some (AList.update revision (newBatchId ev)
                           (case batchTokens of None \<Rightarrow> [] | Some m \<Rightarrow> m)))])"

definition pushBatchedChanges ::
  "env \<Rightarrow> int \<Rightarrow> SyncDatabaseChangeSet \<Rightarrow> AllDeleteRefs \<Rightarrow> world \<Rightarrow> error option \<times> world" where
  "pushBatchedChanges ev lastPulledAt chs delRefs w =
     (let (revision, batchTokens) = revisionFromBaseSnap (baseData (w_store w));
          batch = newBatchWriter (newBatchId ev) revision
      in if revision \<noteq> lastPulledAt then (Some (outOfSync lastPulledAt revision), w)
         else
           (case stageTables delRefs chs ((batch, w), []) of
              (Some err, (bw, w1), deletes) \<Rightarrow> (Some err, w1)
            | (None, st1, deletes) \<Rightarrow>
                (case flush st1 of
                   (Some err, (bw, w2)) \<Rightarrow> (Some err, w2)
                 | (None, (bw, w2)) \<Rightarrow>
                     (case integrate ev lastPulledAt revision batchTokens deletes of
                        Inr ws \<Rightarrow> (None, commitWrites ws w2)
                      | Inl err \<Rightarrow> rollback (newBatchId ev) chs err w2))))"

text \<open>The addresses of the rows of a changeset, in the order in which a push visits them.\<close>

definition pushedRows :: "SyncDatabaseChangeSet \<Rightarrow> nat list" where
  "pushedRows chs = concat (map (\<lambda>p. created (snd p) @ updated (snd p)) chs)"

definition pushChanges ::
  "env \<Rightarrow> int \<Rightarrow> SyncDatabaseChangeSet \<Rightarrow> world \<Rightarrow> error option \<times> world" where
  "pushChanges ev lastPulledAt chs w =
     (let delRefs = findDeleteRefs (w_store w) chs
      in if countChanges chs (delChanges delRefs) < MAX_TRANSACTION_WRITES
         then pushAllChanges ev lastPulledAt chs delRefs w
         else pushBatchedChanges ev lastPulledAt chs delRefs w)"

subsection \<open>What a push writes\<close>

text \<open>A writer between two operations, when no unawaited flush has happened: its batch is
  open, and the count is the number of queued writes, below \<^verbatim>\<open>MAX_TRANSACTION_WRITES\<close>.\<close>

definition writerReady :: "BatchWriter \<Rightarrow> bool" where
  "writerReady bw \<longleftrightarrow>
     \<not> wb_committed (bw_batch bw)
     \<and> bw_count bw = length (wb_writes (bw_batch bw))
     \<and> bw_count bw < MAX_TRANSACTION_WRITES"


text \<open>The store as it will be once the queued writes of the writer are committed.\<close>

definition pendingStore :: "writerState \<Rightarrow> firestore" where
  "pendingStore st = applyWrites (wb_writes (bw_batch (fst st))) (w_store (snd st))"

text \<open>The document a push writes for the row at address \<open>a\<close> of the heap \<open>h\<close>: the row without
  its internals, stamped with the revision.\<close>

definition pushedDoc :: "int \<Rightarrow> row list \<Rightarrow> nat \<Rightarrow> row" where
  "pushedDoc revision h a = (removeWatermelonInternals (h ! a))\<lparr>melonFireRevision := Some revision\<rparr>"

definition rowWrite :: "root \<Rightarrow> int \<Rightarrow> row list \<Rightarrow> string \<Rightarrow> nat \<Rightarrow> writeOp" where
  "rowWrite r revision h t a =
     SetRow (DocRef r t (encodeURIComponent (row_id (h ! a)))) (pushedDoc revision h a)"

text \<open>The writes of one table of a changeset, under the root \<open>r\<close>: the created rows, the
  updated rows, then the discovered delete references.\<close>

definition tableWrites ::
  "root \<Rightarrow> int \<Rightarrow> row list \<Rightarrow> AllDeleteRefs \<Rightarrow> string \<times> nat tableChanges \<Rightarrow> writeOp list" where
  "tableWrites r revision h delRefs p =
     map (rowWrite r revision h (fst p)) (created (snd p) @ updated (snd p))
     @ (case map_of delRefs (fst p) of
          None \<Rightarrow> []
        | Some refs \<Rightarrow> map (\<lambda>delRef. DeleteRow (dref_ref delRef)) refs)"

definition changeWrites ::
  "root \<Rightarrow> int \<Rightarrow> row list \<Rightarrow> AllDeleteRefs \<Rightarrow> SyncDatabaseChangeSet \<Rightarrow> writeOp list" where
  "changeWrites r revision h delRefs chs = concat (map (tableWrites r revision h delRefs) chs)"

text \<open>The map of deleted ids a push records: \<^verbatim>\<open>tableDeletes\<close> of the inline push,
  \<^verbatim>\<open>deletes\<close> of the side-batch push.\<close>

definition recordedDeletes :: "AllDeleteRefs \<Rightarrow> SyncDatabaseChangeSet \<Rightarrow> TableDeletes \<Rightarrow> TableDeletes" where
  "recordedDeletes delRefs chs acc =
     fold (\<lambda>p d. case map_of delRefs (fst p) of
                    None \<Rightarrow> d
                  | Some refs \<Rightarrow> objPut (fst p) (map dref_id refs) d) chs acc"

text \<open>Writes to table documents, as opposed to writes to the base document, to a side-batch
  document or to a delete record.\<close>

fun isRowWrite :: "writeOp \<Rightarrow> bool" where
  "isRowWrite (SetRow ref d) = True"
| "isRowWrite (DeleteRow ref) = True"
| "isRowWrite x = False"


subsection \<open>What a push followed by a pull is expected to return\<close>



text \<open>The rows and the deleted ids of a table in a changeset.\<close>

definition tableRows :: "SyncDatabaseChangeSet \<Rightarrow> string \<Rightarrow> nat list" where
  "tableRows chs t = (case map_of chs t of None \<Rightarrow> [] | Some tc \<Rightarrow> created tc @ updated tc)"

definition deletedIds :: "SyncDatabaseChangeSet \<Rightarrow> string \<Rightarrow> string list" where
  "deletedIds chs t = (case map_of chs t of None \<Rightarrow> [] | Some tc \<Rightarrow> deleted tc)"


text \<open>A row as a pull returns it: without the internals and without the MelonFire fields.\<close>

definition returnedRow :: "row \<Rightarrow> row" where
  "returnedRow r = removeMelonFields (removeWatermelonInternals r)"






subsection \<open>An example store\<close>

text \<open>Revision 1 was pushed as a side-batch (token \<open>tok\<close>), revisions 2 and 3 inline;
  revision 3 deleted the row \<open>bbb\<close>, whose document is still present in this state.\<close>

definition exampleRow :: "string \<Rightarrow> int \<Rightarrow> string \<Rightarrow> row" where
  "exampleRow i v txt =
     \<lparr>row_id = i, status = None, changed = None, melonFireChange = None,
      melonFireRevision = Some v, columns = [(''data'', txt)]\<rparr>"

definition exampleBase :: MelonFireBaseDoc where
  "exampleBase =
     \<lparr>melonLatestRevision = Some 3, melonLatestDate = Some ''2023-01-01T00:00:00.000Z'',
      melonBatchTokens = Some [(1, ''tok'')]\<rparr>"

definition exampleStore :: firestore where
  "exampleStore =
     \<lparr>baseData = Some exampleBase,
      batchDocs = [(''tok'', \<lparr>bd_melonLatestRevision = 1,
                              bd_melonLatestDate = ''2023-01-01T00:00:00.000Z'',
                              bd_deletes = []\<rparr>)],
      deleteDocs = [(''del1'', \<lparr>dr_revision = 3, dr_deletes = [(''entries'', [''bbb''])]\<rparr>)],
      tableDocs =
        [(DocRef BaseDoc ''entries'' ''bbb'', exampleRow ''bbb'' 2 ''yo''),
         (DocRef BaseDoc ''entries'' ''aaa'', exampleRow ''aaa'' 2 ''its me''),
         (DocRef (BatchDoc ''tok'') ''entries'' ''ccc'', exampleRow ''ccc'' 1 ''hello'')]\<rparr>"

text \<open>The same store with one more row, whose id is the name of a property that every
  object inherits.\<close>

definition inheritedStore :: firestore where
  "inheritedStore =
     exampleStore\<lparr>tableDocs :=
       tableDocs exampleStore
       @ [(DocRef BaseDoc ''entries'' ''constructor'', exampleRow ''constructor'' 2 ''mine'')]\<rparr>"

text \<open>A client whose heap holds two rows as the adapter sends them, with the internals
  \<^verbatim>\<open>_status\<close> and \<^verbatim>\<open>_changed\<close>, and a changeset over them.\<close>

definition clientRow :: "string \<Rightarrow> string \<Rightarrow> string \<Rightarrow> row" where
  "clientRow i st txt =
     \<lparr>row_id = i, status = Some st, changed = Some [], melonFireChange = None,
      melonFireRevision = None, columns = [(''data'', txt)]\<rparr>"

definition exampleEnv :: env where
  "exampleEnv =
     \<lparr>newBatchId = ''batch2'', newDeleteId = ''del2'',
      nowISO = ''2023-01-02T00:00:00.000Z'', transactionFails = False\<rparr>"

definition exampleWorld :: world where
  "exampleWorld =
     \<lparr>w_heap = [clientRow ''ddd'' ''created'' ''new'', clientRow ''aaa'' ''updated'' ''again''],
      w_store = exampleStore, w_commits = []\<rparr>"

definition exampleChanges :: SyncDatabaseChangeSet where
  "exampleChanges = [(''entries'', \<lparr>created = [0], updated = [1], deleted = [''ccc'']\<rparr>)]"

text \<open>A never-written store, and a client that pushes \<open>n\<close> created rows with the ids
  \<open>0\<close>, \<open>1\<close>, ... in decimal, as the tests of the repository do.\<close>

definition emptyStore :: firestore where
  "emptyStore = \<lparr>baseData = None, batchDocs = [], deleteDocs = [], tableDocs = []\<rparr>"

fun decimalString :: "nat \<Rightarrow> string" where
  "decimalString n =
     (if n < 10 then [char_of (48 + n)]
      else decimalString (n div 10) @ [char_of (48 + n mod 10)])"

declare decimalString.simps [simp del]

definition manyRows :: "nat \<Rightarrow> row list" where
  "manyRows n = map (\<lambda>i. clientRow (decimalString i) ''created'' ''hello'') [0..<n]"

definition manyWorld :: "nat \<Rightarrow> world" where
  "manyWorld n = \<lparr>w_heap = manyRows n, w_store = emptyStore, w_commits = []\<rparr>"

definition manyChanges :: "nat \<Rightarrow> SyncDatabaseChangeSet" where
  "manyChanges n = [(''entries'', \<lparr>created = [0..<n], updated = [], deleted = []\<rparr>)]"

text \<open>A client that creates one row whose id is \<open>100%\<close>, on a never-written store.\<close>

definition percentWorld :: world where
  "percentWorld =
     \<lparr>w_heap = [clientRow ''100%'' ''created'' ''hello''], w_store = emptyStore, w_commits = []\<rparr>"

definition percentChanges :: SyncDatabaseChangeSet where
  "percentChanges = [(''entries'', \<lparr>created = [0], updated = [], deleted = []\<rparr>)]"


text \<open>A client that creates two rows whose ids differ but decode to the same string.\<close>

definition spaceWorld :: world where
  "spaceWorld =
     \<lparr>w_heap = [clientRow ''a b'' ''created'' ''first'', clientRow ''a%20b'' ''created'' ''second''],
      w_store = emptyStore, w_commits = []\<rparr>"

definition spaceChanges :: SyncDatabaseChangeSet where
  "spaceChanges = [(''entries'', \<lparr>created = [0, 1], updated = [], deleted = []\<rparr>)]"



text \<open>The references of the documents \<open>0\<close>, \<open>1\<close>, ... of the table \<open>entries\<close> under the base
  document.\<close>

definition manyRefs :: "nat \<Rightarrow> docref list" where
  "manyRefs n = map (\<lambda>i. DocRef BaseDoc ''entries'' (decimalString i)) [0..<n]"

definition failingEnv :: env where
  "failingEnv = exampleEnv\<lparr>transactionFails := True\<rparr>"

section \<open>Properties\<close>

subsection \<open>JavaScript objects\<close>



lemma insertIndex_map_of:
  "k \<notin> fst ` set ob \<Longrightarrow> map_of (insertIndex n k v ob) = (map_of ob)(k \<mapsto> v)"
  by (induction ob) (auto split: option.splits simp: fun_upd_twist)


lemma append_map_of:
  "k \<notin> fst ` set ob \<Longrightarrow> map_of (ob @ [(k, v)]) = (map_of ob)(k \<mapsto> v)"
  by (induction ob) auto

lemma objPut_map_of: "map_of (objPut k v ob) = (map_of ob)(k \<mapsto> v)"
proof (cases "k \<in> fst ` set ob")
  case True
  then show ?thesis by (simp add: objPut_def update_conv')
next
  case False
  then show ?thesis
    by (cases "arrayIndex k") (simp_all add: objPut_def insertIndex_map_of append_map_of del: map_of_append)
qed

lemma objPut_keys: "fst ` set (objPut k v ob) = insert k (fst ` set ob)"
proof -
  have "dom (map_of (objPut k v ob)) = insert k (dom (map_of ob))"
    by (simp add: objPut_map_of)
  then show ?thesis by (simp only: dom_map_of_conv_image_fst)
qed


lemma initChangeMap_fold_map_of:
  "map_of (fold (\<lambda>t changeMap. objPut t emptyEntry changeMap) ts cm) t =
     (if t \<in> set ts then Some emptyEntry else map_of cm t)"
  by (induction ts arbitrary: cm) (auto simp: objPut_map_of)

lemma initChangeMap_map_of:
  "map_of (initChangeMap tables) t = (if t \<in> set tables then Some emptyEntry else None)"
  by (simp add: initChangeMap_def initChangeMap_fold_map_of)

lemma buildChanges_other:
  "buildChanges ts cm acc = Inr chs \<Longrightarrow> t \<notin> set ts \<Longrightarrow> map_of chs t = map_of acc t"
  by (induction ts arbitrary: acc) (auto split: option.splits simp: objPut_map_of)

lemma buildChanges_member:
  "buildChanges ts cm acc = Inr chs \<Longrightarrow> t \<in> set ts \<Longrightarrow>
     \<exists>entry. map_of cm t = Some entry \<and> map_of chs t = Some (tableResult entry)"
proof (induction ts arbitrary: acc)
  case Nil
  then show ?case by simp
next
  case (Cons u ts)
  from Cons.prems(1) obtain entry where e: "map_of cm u = Some entry"
    and rest: "buildChanges ts cm (objPut u (tableResult entry) acc) = Inr chs"
    by (auto split: option.splits)
  show ?case
  proof (cases "t \<in> set ts")
    case True
    with Cons.IH rest show ?thesis by blast
  next
    case False
    with Cons.prems(2) have "t = u" by simp
    with False rest e show ?thesis
      by (auto simp: objPut_map_of dest: buildChanges_other)
  qed
qed

lemma buildChanges_keys:
  "buildChanges ts cm acc = Inr chs \<Longrightarrow> fst ` set chs = set ts \<union> fst ` set acc"
  by (induction ts arbitrary: acc) (auto split: option.splits simp: objPut_keys)

lemma buildChanges_total:
  "\<forall>t\<in>set ts. map_of cm t \<noteq> None \<Longrightarrow> \<exists>chs. buildChanges ts cm acc = Inr chs"
  by (induction ts arbitrary: acc) (auto split: option.splits)

lemma revisionFromBaseSnap_latest:
  "melonLatestRevision d = Some L \<Longrightarrow> fst (revisionFromBaseSnap (Some d)) = L + 1"
  by (simp add: revisionFromBaseSnap_def MIN_REVISION_def)

subsection \<open>Pulling at the watermark\<close>

text \<open>
  C8. For every store whose base document holds the committed latest revision \<open>L\<close>, a
  pull with \<open>lastPulledAt = L + 1\<close> succeeds, returns \<open>timestamp = L + 1\<close>, and returns for
  every requested table (and for no other) the lists \<open>created\<close>, \<open>updated\<close> and \<open>deleted\<close>
  all empty.
\<close>

theorem C8_pull_at_watermark:
  assumes "baseData fs = Some d" and "melonLatestRevision d = Some L"
  shows "\<exists>chs. pullChanges fs tables (Some (L + 1)) = Inr \<lparr>changes = chs, timestamp = L + 1\<rparr>
           \<and> fst ` set chs = set tables
           \<and> (\<forall>t\<in>set tables.
                 map_of chs t = Some \<lparr>created = [], updated = [], deleted = []\<rparr>)"
proof -
  obtain toks where rv: "revisionFromBaseSnap (baseData fs) = (L + 1, toks)"
    using assms revisionFromBaseSnap_latest [of d L] by (cases "revisionFromBaseSnap (Some d)") simp
  have loop: "pullLoop fs tables toks (L + 1) (L + 1) (initChangeMap tables) = Inr (initChangeMap tables)"
    by (subst pullLoop.simps) simp
  have "\<forall>t\<in>set tables. map_of (initChangeMap tables) t \<noteq> None"
    by (simp add: initChangeMap_map_of)
  then obtain chs where b: "buildChanges tables (initChangeMap tables) [] = Inr chs"
    using buildChanges_total by blast
  have keys: "fst ` set chs = set tables"
    using buildChanges_keys [OF b] by simp
  have vals: "map_of chs t = Some \<lparr>created = [], updated = [], deleted = []\<rparr>" if "t \<in> set tables" for t
    using buildChanges_member [OF b that]
    by (auto simp: initChangeMap_map_of that tableResult_def emptyEntry_def objValues_def objKeys_def)
  from rv loop b keys vals show ?thesis
    by (simp add: pullChanges_def)
qed

theorem C8_pull_at_watermark_witness:
  "baseData exampleStore = Some exampleBase \<and> melonLatestRevision exampleBase = Some 3 \<and>
   (\<exists>chs. pullChanges exampleStore [''entries'', ''tags''] (Some (3 + 1))
            = Inr \<lparr>changes = chs, timestamp = 3 + 1\<rparr>
          \<and> fst ` set chs = set [''entries'', ''tags'']
          \<and> (\<forall>t\<in>set [''entries'', ''tags''].
                map_of chs t = Some \<lparr>created = [], updated = [], deleted = []\<rparr>))"
proof -
  have h1: "baseData exampleStore = Some exampleBase" by (simp add: exampleStore_def)
  have h2: "melonLatestRevision exampleBase = Some 3" by (simp add: exampleBase_def)
  show ?thesis
    using h1 h2 C8_pull_at_watermark [OF h1 h2, of "[''entries'', ''tags'']"] by blast
qed

subsection \<open>Delete occlusion in the returned changeset\<close>

text \<open>
  C7 (the claim fails on the code). For every pull that returns, and every requested table:
  the returned \<open>created\<close> list is empty, the returned \<open>deleted\<close> list is the list of keys of
  the table's \<open>deleted\<close> map, and no returned updated row has an id that is returned as
  deleted. But the returned \<open>updated\<close> list is not the list of values of the table's
  \<open>updated\<close> map without the rows whose \<open>id\<close> is in the \<open>deleted\<close> map: the test is
  \<^verbatim>\<open>row.id in deleted\<close>, which is also true of every property name of \<^verbatim>\<open>Object.prototype\<close>,
  so a row whose id is such a name is dropped although no revision deleted it.
\<close>

theorem C7_in_operator_drops_inherited_names:
  assumes "pullChanges fs tables lastPulledAt = Inr res" and "t \<in> set tables"
  shows "\<exists>changeMap entry tc.
           pullLoop fs tables (snd (revisionFromBaseSnap (baseData fs)))
             (fst (revisionFromBaseSnap (baseData fs)))
             (case lastPulledAt of None \<Rightarrow> MIN_REVISION | Some v \<Rightarrow> v)
             (initChangeMap tables) = Inr changeMap
         \<and> map_of changeMap t = Some entry
         \<and> map_of (changes res) t = Some tc
         \<and> created tc = []
         \<and> updated tc = filter (\<lambda>r. row_id r \<notin> set (objKeys (le_deleted entry))
                                   \<and> row_id r \<notin> set objectPrototypeNames)
                           (objValues (le_updated entry))
         \<and> deleted tc = objKeys (le_deleted entry)
         \<and> (\<forall>r\<in>set (updated tc). row_id r \<notin> set (deleted tc))"
proof -
  obtain endRevision batchTokens where rv: "revisionFromBaseSnap (baseData fs) = (endRevision, batchTokens)"
    by (cases "revisionFromBaseSnap (baseData fs)")
  from assms(1) rv obtain changeMap chs where
    loop: "pullLoop fs tables batchTokens endRevision
             (case lastPulledAt of None \<Rightarrow> MIN_REVISION | Some v \<Rightarrow> v) (initChangeMap tables) = Inr changeMap"
    and b: "buildChanges tables changeMap [] = Inr chs"
    and res: "res = \<lparr>changes = chs, timestamp = endRevision\<rparr>"
    by (auto simp: pullChanges_def split: sum.splits)
  from buildChanges_member [OF b assms(2)] obtain entry where
    e: "map_of changeMap t = Some entry" and c: "map_of chs t = Some (tableResult entry)"
    by blast
  have f: "(\<lambda>r. \<not> objHas (row_id r) (le_deleted entry))
             = (\<lambda>r. row_id r \<notin> set (objKeys (le_deleted entry)) \<and> row_id r \<notin> set objectPrototypeNames)"
    by (simp add: objHas_def objKeys_def)
  show ?thesis
    using rv loop e c res
    by (auto simp: tableResult_def f objKeys_def)
qed

theorem C7_in_operator_drops_inherited_names_witness:
  "pullChanges inheritedStore [''entries''] None
     = Inr \<lparr>changes = [(''entries'',
               \<lparr>created = [],
                updated = [removeMelonFields (exampleRow ''ccc'' 1 ''hello''),
                           removeMelonFields (exampleRow ''aaa'' 2 ''its me'')],
                deleted = [''bbb'']\<rparr>)],
            timestamp = 4\<rparr>
   \<and> ''entries'' \<in> set [''entries'']
   \<and> (\<exists>changeMap entry tc.
         pullLoop inheritedStore [''entries''] (snd (revisionFromBaseSnap (baseData inheritedStore)))
           (fst (revisionFromBaseSnap (baseData inheritedStore))) MIN_REVISION
           (initChangeMap [''entries'']) = Inr changeMap
       \<and> map_of changeMap ''entries'' = Some entry
       \<and> objValues (le_updated entry)
           = [removeMelonFields (exampleRow ''ccc'' 1 ''hello''),
              removeMelonFields (exampleRow ''aaa'' 2 ''its me''),
              removeMelonFields (exampleRow ''bbb'' 2 ''yo''),
              removeMelonFields (exampleRow ''constructor'' 2 ''mine'')]
       \<and> objKeys (le_deleted entry) = [''bbb'']
       \<and> tc = \<lparr>created = [],
                updated = [removeMelonFields (exampleRow ''ccc'' 1 ''hello''),
                           removeMelonFields (exampleRow ''aaa'' 2 ''its me'')],
                deleted = [''bbb'']\<rparr>
       \<and> updated tc = filter (\<lambda>r. row_id r \<notin> set (objKeys (le_deleted entry))
                                 \<and> row_id r \<notin> set objectPrototypeNames)
                         (objValues (le_updated entry))
       \<and> deleted tc = objKeys (le_deleted entry))"
proof -
  have h1: "pullChanges inheritedStore [''entries''] None
     = Inr \<lparr>changes = [(''entries'',
               \<lparr>created = [],
                updated = [removeMelonFields (exampleRow ''ccc'' 1 ''hello''),
                           removeMelonFields (exampleRow ''aaa'' 2 ''its me'')],
                deleted = [''bbb'']\<rparr>)],
            timestamp = 4\<rparr>"
    by code_simp
  have h2: "''entries'' \<in> set [''entries'']" by simp
  have loop: "pullLoop inheritedStore [''entries''] (snd (revisionFromBaseSnap (baseData inheritedStore)))
           (fst (revisionFromBaseSnap (baseData inheritedStore))) MIN_REVISION
           (initChangeMap [''entries''])
      = Inr [(''entries'',
              \<lparr>le_updated = [(''ccc'', removeMelonFields (exampleRow ''ccc'' 1 ''hello'')),
                              (''aaa'', removeMelonFields (exampleRow ''aaa'' 2 ''its me'')),
                              (''bbb'', removeMelonFields (exampleRow ''bbb'' 2 ''yo'')),
                              (''constructor'', removeMelonFields (exampleRow ''constructor'' 2 ''mine''))],
                le_deleted = [(''bbb'', True)]\<rparr>)]"
    by code_simp
  from C7_in_operator_drops_inherited_names [OF h1 h2] obtain changeMap entry tc where
    a: "pullLoop inheritedStore [''entries''] (snd (revisionFromBaseSnap (baseData inheritedStore)))
           (fst (revisionFromBaseSnap (baseData inheritedStore))) MIN_REVISION
           (initChangeMap [''entries'']) = Inr changeMap"
    and b: "map_of changeMap ''entries'' = Some entry"
    and c: "map_of [(''entries'',
               \<lparr>created = [],
                updated = [removeMelonFields (exampleRow ''ccc'' 1 ''hello''),
                           removeMelonFields (exampleRow ''aaa'' 2 ''its me'')],
                deleted = [''bbb'']\<rparr>)] ''entries'' = Some tc"
    and d: "updated tc = filter (\<lambda>r. row_id r \<notin> set (objKeys (le_deleted entry))
                                 \<and> row_id r \<notin> set objectPrototypeNames)
                         (objValues (le_updated entry))"
    and e: "deleted tc = objKeys (le_deleted entry)"
    by auto
  from a b loop have "objValues (le_updated entry)
           = [removeMelonFields (exampleRow ''ccc'' 1 ''hello''),
              removeMelonFields (exampleRow ''aaa'' 2 ''its me''),
              removeMelonFields (exampleRow ''bbb'' 2 ''yo''),
              removeMelonFields (exampleRow ''constructor'' 2 ''mine'')]"
    and "objKeys (le_deleted entry) = [''bbb'']"
    by (auto simp: objKeys_def objValues_def)
  with a b c d e h1 h2 show ?thesis by auto
qed

subsection \<open>The merge helper\<close>














lemma mergeDocs_URIError:
  "\<exists>d\<in>set docs. decodeURIComponent (row_id d) = None \<Longrightarrow> mergeDocs docs upd = Inl URIError"
  by (induction docs arbitrary: upd)
     (auto simp: Let_def removeMelonFields_def removeWatermelonInternals_def split: option.splits)



text \<open>
  C6 (the claim fails on the code). The entry the merge helper overwrites is not the entry
  of the id: its key is \<^verbatim>\<open>decodeURIComponent\<close> of the stored \<open>id\<close> field, which was never
  encoded. A client creates the rows \<open>a b\<close> and \<open>a%20b\<close> in one push; they are stored as two
  documents, under the keys \<open>a%20b\<close> and \<open>a%2520b\<close>, at revision 1. The merge helper, over the
  range from 1 up to 2, writes both under the key \<open>a b\<close>: the row \<open>a b\<close>, the only and so the
  latest row of its id, is overwritten by the row \<open>a%20b\<close>, and the pull returns one row.
\<close>

theorem C6_decoded_key_merges_distinct_ids:
  "fst (pushChanges exampleEnv 1 spaceChanges spaceWorld) = None
   \<and> tableDocs (w_store (snd (pushChanges exampleEnv 1 spaceChanges spaceWorld)))
       = [(DocRef BaseDoc ''entries'' ''a%20b'',
           \<lparr>row_id = ''a b'', status = None, changed = None, melonFireChange = None,
            melonFireRevision = Some 1, columns = [(''data'', ''first'')]\<rparr>),
          (DocRef BaseDoc ''entries'' ''a%2520b'',
           \<lparr>row_id = ''a%20b'', status = None, changed = None, melonFireChange = None,
            melonFireRevision = Some 1, columns = [(''data'', ''second'')]\<rparr>)]
   \<and> decodeURIComponent ''a b'' = Some ''a b''
   \<and> decodeURIComponent ''a%20b'' = Some ''a b''
   \<and> mergeCreatesAndUpdates (w_store (snd (pushChanges exampleEnv 1 spaceChanges spaceWorld)))
         BaseDoc 1 2 [''entries''] (initChangeMap [''entries''])
       = Inr [(''entries'',
               \<lparr>le_updated =
                  [(''a b'',
                    \<lparr>row_id = ''a%20b'', status = None, changed = None, melonFireChange = None,
                     melonFireRevision = None, columns = [(''data'', ''second'')]\<rparr>)],
                le_deleted = []\<rparr>)]
   \<and> pullChanges (w_store (snd (pushChanges exampleEnv 1 spaceChanges spaceWorld)))
         [''entries''] None
       = Inr \<lparr>changes =
                [(''entries'',
                  \<lparr>created = [],
                   updated =
                     [\<lparr>row_id = ''a%20b'', status = None, changed = None, melonFireChange = None,
                       melonFireRevision = None, columns = [(''data'', ''second'')]\<rparr>],
                   deleted = []\<rparr>)],
              timestamp = 2\<rparr>"
  by code_simp

subsection \<open>The push planner\<close>

lemma fold_plus_sum_list: "fold (\<lambda>cur prev. prev + cur) xs (n::nat) = n + sum_list xs"
  by (induction xs arbitrary: n) auto

lemma countChanges_sum:
  "countChanges chs deleteCount =
     (\<Sum>p\<leftarrow>chs. length (created (snd p)) + length (updated (snd p)))
       + (if deleteCount > 0 then deleteCount + 1 else 0)"
  by (simp add: countChanges_def fold_plus_sum_list)

lemma fold_length_sum_list:
  "fold (\<lambda>p n. n + length (snd p)) xs (n::nat) = n + (\<Sum>p\<leftarrow>xs. length (snd p))"
  by (induction xs arbitrary: n) auto

lemma delChanges_sum: "delChanges delRefs = (\<Sum>p\<leftarrow>delRefs. length (snd p))"
  by (simp add: delChanges_def fold_length_sum_list)

text \<open>
  C2. For every push, with \<open>D\<close> the number of discovered delete references and \<open>C\<close> the
  number of created plus updated rows over all tables, \<open>countChanges\<close> returns
  \<open>effective = C + (if D > 0 then D + 1 else 0)\<close>, and the planner runs the inline push when
  \<open>effective + 1 \<le> 500\<close> and the side-batch push otherwise.
\<close>

theorem C2_planner_threshold:
  "MAX_TRANSACTION_WRITES = 500
   \<and> countChanges chs (delChanges (findDeleteRefs (w_store w) chs))
       = (\<Sum>p\<leftarrow>chs. length (created (snd p)) + length (updated (snd p)))
         + (if (\<Sum>p\<leftarrow>findDeleteRefs (w_store w) chs. length (snd p)) > 0
            then (\<Sum>p\<leftarrow>findDeleteRefs (w_store w) chs. length (snd p)) + 1 else 0)
   \<and> pushChanges ev lastPulledAt chs w
       = (if countChanges chs (delChanges (findDeleteRefs (w_store w) chs)) + 1
               \<le> MAX_TRANSACTION_WRITES
          then pushAllChanges ev lastPulledAt chs (findDeleteRefs (w_store w) chs) w
          else pushBatchedChanges ev lastPulledAt chs (findDeleteRefs (w_store w) chs) w)"
  by (simp add: pushChanges_def Let_def countChanges_sum delChanges_sum MAX_TRANSACTION_WRITES_def)

subsection \<open>Stale-write detection\<close>

lemma revisionFromBaseSnap_next:
  "fst (revisionFromBaseSnap snap) =
     (case snap of
        None \<Rightarrow> 0
      | Some d \<Rightarrow> (case melonLatestRevision d of None \<Rightarrow> 0 | Some v \<Rightarrow> v)) + 1"
  by (simp add: revisionFromBaseSnap_def MIN_REVISION_def split: option.splits)

text \<open>
  C3. For every push, on the inline path and on the side-batch path, when the next
  revision computed from the base document, \<open>(latestRevision ?? 0) + 1\<close>, differs from the
  caller's \<open>lastPulledAt\<close>, the push fails with the out-of-sync error and leaves everything
  as it was: the base document, every table document, every side-batch and delete
  record, and the caller's rows; nothing is committed.
\<close>

theorem C3_stale_write_detection:
  assumes "(case baseData (w_store w) of
              None \<Rightarrow> 0
            | Some d \<Rightarrow> (case melonLatestRevision d of None \<Rightarrow> 0 | Some v \<Rightarrow> v)) + 1
           \<noteq> lastPulledAt"
  shows "pushAllChanges ev lastPulledAt chs delRefs w
           = (Some (outOfSync lastPulledAt (fst (revisionFromBaseSnap (baseData (w_store w))))), w)
       \<and> pushBatchedChanges ev lastPulledAt chs delRefs w
           = (Some (outOfSync lastPulledAt (fst (revisionFromBaseSnap (baseData (w_store w))))), w)
       \<and> pushChanges ev lastPulledAt chs w
           = (Some (outOfSync lastPulledAt (fst (revisionFromBaseSnap (baseData (w_store w))))), w)"
proof -
  have ne: "fst (revisionFromBaseSnap (baseData (w_store w))) \<noteq> lastPulledAt"
    using assms by (simp add: revisionFromBaseSnap_next)
  have a: "pushAllChanges ev lastPulledAt chs dr w
           = (Some (outOfSync lastPulledAt (fst (revisionFromBaseSnap (baseData (w_store w))))), w)"
    for dr
    using ne by (simp add: pushAllChanges_def Let_def)
  have b: "pushBatchedChanges ev lastPulledAt chs dr w
           = (Some (outOfSync lastPulledAt (fst (revisionFromBaseSnap (baseData (w_store w))))), w)"
    for dr
    using ne by (cases "revisionFromBaseSnap (baseData (w_store w))")
                (simp add: pushBatchedChanges_def Let_def)
  show ?thesis
    using a b by (simp add: pushChanges_def Let_def)
qed

theorem C3_stale_write_detection_witness:
  "(case baseData (w_store exampleWorld) of
      None \<Rightarrow> 0
    | Some d \<Rightarrow> (case melonLatestRevision d of None \<Rightarrow> 0 | Some v \<Rightarrow> v)) + 1 \<noteq> (2::int)
   \<and> pushAllChanges exampleEnv 2 exampleChanges [] exampleWorld
       = (Some (OutOfSync 1 4), exampleWorld)
   \<and> pushBatchedChanges exampleEnv 2 exampleChanges [] exampleWorld
       = (Some (OutOfSync 1 4), exampleWorld)
   \<and> pushChanges exampleEnv 2 exampleChanges exampleWorld
       = (Some (OutOfSync 1 4), exampleWorld)"
proof -
  have h: "(case baseData (w_store exampleWorld) of
      None \<Rightarrow> 0
    | Some d \<Rightarrow> (case melonLatestRevision d of None \<Rightarrow> 0 | Some v \<Rightarrow> v)) + 1 \<noteq> (2::int)"
    by (simp add: exampleWorld_def exampleStore_def exampleBase_def)
  have r: "fst (revisionFromBaseSnap (baseData (w_store exampleWorld))) = 4"
    by (simp add: revisionFromBaseSnap_next exampleWorld_def exampleStore_def exampleBase_def)
  from C3_stale_write_detection [OF h, of exampleEnv exampleChanges "[]"] h r
  show ?thesis by (simp add: outOfSync_def)
qed

subsection \<open>The caller's rows during a push\<close>





lemma commitWrites_heap [simp]: "w_heap (commitWrites ws w) = w_heap w"
  by (simp add: commitWrites_def)


text \<open>The heap after the internals have been removed from the rows at the given addresses.\<close>

lemma removeWatermelonInternals_idem [simp]:
  "removeWatermelonInternals (removeWatermelonInternals r) = removeWatermelonInternals r"
  by (simp add: removeWatermelonInternals_def)

lemma fold_remove_length [simp]:
  "length (fold (\<lambda>a h. removeWatermelonInternalsAt h a) raws h) = length h"
  by (induction raws arbitrary: h) (auto simp: removeWatermelonInternalsAt_def)




























subsection \<open>The writer between operations\<close>

lemma applyWrites_append: "applyWrites (a @ b) fs = applyWrites b (applyWrites a fs)"
  by (simp add: applyWrites_def)

lemma applyWrites_Nil [simp]: "applyWrites [] fs = fs"
  by (simp add: applyWrites_def)

lemma applyWrites_Cons: "applyWrites (x # xs) fs = applyWrites xs (applyWrite x fs)"
  by (simp add: applyWrites_def)

lemma commitWrites_store [simp]: "w_store (commitWrites ws w) = applyWrites ws (w_store w)"
  by (simp add: commitWrites_def)

lemma commitWrites_commits [simp]: "w_commits (commitWrites ws w) = w_commits w @ [ws]"
  by (simp add: commitWrites_def)

lemma writerReady_new [simp]: "writerReady (newBatchWriter token revision)"
  by (simp add: writerReady_def newBatchWriter_def newWriteBatch_def MAX_TRANSACTION_WRITES_def)

lemma pendingStore_new [simp]: "pendingStore (newBatchWriter token revision, w) = w_store w"
  by (simp add: pendingStore_def newBatchWriter_def newWriteBatch_def)

lemma flushBatch_open:
  "\<not> wb_committed (bw_batch bw) \<Longrightarrow>
   flushBatch (bw, w)
     = (None, (bw\<lparr>bw_batch := newWriteBatch, bw_count := 0\<rparr>,
               commitWrites (wb_writes (bw_batch bw)) w))"
  by (simp add: flushBatch_def wbCommit_def)

lemma wbDeletes_open:
  "\<not> wb_committed b \<Longrightarrow>
   wbDeletes (map OneRef refs) b = Inr (b\<lparr>wb_writes := wb_writes b @ map DeleteRow refs\<rparr>)"
  by (induction refs arbitrary: b) auto

lemma bw_write_ready:
  assumes "writerReady bw"
  shows "\<exists>bw' w'. bw_write t record (bw, w) = (None, (bw', w'))
           \<and> writerReady bw'
           \<and> pendingStore (bw', w')
               = applyWrite (SetRow (DocRef (BatchDoc (bw_doc bw)) t (encodeURIComponent (row_id record)))
                               (record\<lparr>melonFireRevision := Some (bw_revision bw)\<rparr>))
                   (pendingStore (bw, w))
           \<and> bw_doc bw' = bw_doc bw \<and> bw_revision bw' = bw_revision bw
           \<and> w_heap w' = w_heap w"
proof (cases "bw_count bw + 1 = MAX_TRANSACTION_WRITES")
  case True
  with assms show ?thesis
    by (simp add: bw_write_def Let_def wbSet_def bumpCount_def writerReady_def flushBatch_open
                  pendingStore_def newWriteBatch_def applyWrites_append applyWrites_Cons
                  MAX_TRANSACTION_WRITES_def)
next
  case False
  with assms show ?thesis
    by (simp add: bw_write_def Let_def wbSet_def bumpCount_def writerReady_def
                  pendingStore_def applyWrites_append applyWrites_Cons)
qed

lemma pendingStore_heap [simp]: "pendingStore (bw, w\<lparr>w_heap := h\<rparr>) = pendingStore (bw, w)"
  by (simp add: pendingStore_def)

lemma row_id_removeWatermelonInternals [simp]:
  "row_id (removeWatermelonInternals r) = row_id r"
  by (simp add: removeWatermelonInternals_def)

lemma removeWatermelonInternalsAt_length [simp]:
  "length (removeWatermelonInternalsAt h raw) = length h"
  by (simp add: removeWatermelonInternalsAt_def)

lemma rowWrite_strip:
  "a < length h \<Longrightarrow> rowWrite r revision (removeWatermelonInternalsAt h raw) t a = rowWrite r revision h t a"
  by (cases "a = raw") (simp_all add: rowWrite_def pushedDoc_def removeWatermelonInternalsAt_def)

lemma stageRow_ready:
  assumes "writerReady bw" and "raw < length (w_heap w)"
  shows "\<exists>bw' w'. stageRow t raw (bw, w) = (None, (bw', w'))
           \<and> writerReady bw'
           \<and> pendingStore (bw', w')
               = applyWrite (rowWrite (BatchDoc (bw_doc bw)) (bw_revision bw) (w_heap w) t raw)
                   (pendingStore (bw, w))
           \<and> bw_doc bw' = bw_doc bw \<and> bw_revision bw' = bw_revision bw
           \<and> w_heap w' = removeWatermelonInternalsAt (w_heap w) raw"
proof -
  let ?h = "removeWatermelonInternalsAt (w_heap w) raw"
  from bw_write_ready [OF assms(1), of t "?h ! raw" "w\<lparr>w_heap := ?h\<rparr>"] assms(2)
  show ?thesis
    by (simp add: stageRow_def Let_def rowWrite_def pushedDoc_def removeWatermelonInternalsAt_def)
qed

lemma stageRows_ready:
  assumes "writerReady bw" and "\<forall>a\<in>set raws. a < length (w_heap w)"
  shows "\<exists>bw' w'. stageRows t raws (bw, w) = (None, (bw', w'))
           \<and> writerReady bw'
           \<and> pendingStore (bw', w')
               = applyWrites (map (rowWrite (BatchDoc (bw_doc bw)) (bw_revision bw) (w_heap w) t) raws)
                   (pendingStore (bw, w))
           \<and> bw_doc bw' = bw_doc bw \<and> bw_revision bw' = bw_revision bw
           \<and> w_heap w' = fold (\<lambda>a h. removeWatermelonInternalsAt h a) raws (w_heap w)"
  using assms
proof (induction raws arbitrary: bw w)
  case Nil
  then show ?case by simp
next
  case (Cons raw raws)
  from Cons.prems have rawlt: "raw < length (w_heap w)" by simp
  from stageRow_ready [OF Cons.prems(1) rawlt, of t] obtain bw1 w1 where
    s1: "stageRow t raw (bw, w) = (None, (bw1, w1))"
    and r1: "writerReady bw1"
    and p1: "pendingStore (bw1, w1)
               = applyWrite (rowWrite (BatchDoc (bw_doc bw)) (bw_revision bw) (w_heap w) t raw)
                   (pendingStore (bw, w))"
    and d1: "bw_doc bw1 = bw_doc bw" "bw_revision bw1 = bw_revision bw"
    and h1: "w_heap w1 = removeWatermelonInternalsAt (w_heap w) raw"
    by blast
  have lt1: "\<forall>a\<in>set raws. a < length (w_heap w1)"
    using Cons.prems(2) h1 by simp
  from Cons.IH [OF r1 lt1] obtain bw' w' where
    s2: "stageRows t raws (bw1, w1) = (None, (bw', w'))"
    and r2: "writerReady bw'"
    and p2: "pendingStore (bw', w')
               = applyWrites (map (rowWrite (BatchDoc (bw_doc bw1)) (bw_revision bw1) (w_heap w1) t) raws)
                   (pendingStore (bw1, w1))"
    and d2: "bw_doc bw' = bw_doc bw1" "bw_revision bw' = bw_revision bw1"
    and h2: "w_heap w' = fold (\<lambda>a h. removeWatermelonInternalsAt h a) raws (w_heap w1)"
    by blast
  have same: "map (rowWrite (BatchDoc (bw_doc bw1)) (bw_revision bw1) (w_heap w1) t) raws
            = map (rowWrite (BatchDoc (bw_doc bw)) (bw_revision bw) (w_heap w) t) raws"
    using Cons.prems(2) by (simp add: d1 h1 rowWrite_strip)
  note p2' = p2 [unfolded same p1]
  show ?case
    using s1 s2 r2 p2' d1 d2 h1 h2
    by (simp add: applyWrites_Cons)
qed

lemma deleteBlocks_short:
  assumes "\<not> wb_committed (bw_batch bw)" and "wb_writes (bw_batch bw) = []"
    and "bw_count bw = 0" and "length rest < MAX_TRANSACTION_WRITES"
  shows "deleteBlocks rest 0 (bw, w)
           = (None, (bw\<lparr>bw_batch := (bw_batch bw)\<lparr>wb_writes := map DeleteRow rest\<rparr>,
                        bw_count := length rest\<rparr>, w))"
proof -
  let ?bw1 = "bw\<lparr>bw_batch := (bw_batch bw)\<lparr>wb_writes := map DeleteRow rest\<rparr>,
                  bw_count := length rest\<rparr>"
  have b0: "deleteBlock rest (bw, w) = Inr (?bw1, w)"
    using assms by (simp add: deleteBlock_def wbDeletes_open Let_def)
  have b1: "deleteBlock [] (?bw1, w) = Inr (?bw1, w)"
    using assms by (simp add: deleteBlock_def Let_def)
  have step2: "deleteBlocks rest (Suc (Suc 0)) (?bw1, w) = (None, (?bw1, w))"
    using assms(4) by (subst deleteBlocks.simps) (simp add: MAX_TRANSACTION_WRITES_def)
  have step1: "deleteBlocks rest (Suc 0) (?bw1, w) = (None, (?bw1, w))"
  proof (cases "rest = []")
    case True
    then show ?thesis by (subst deleteBlocks.simps) simp
  next
    case False
    then have "deleteBlocks rest (Suc 0) (?bw1, w) = deleteBlocks rest (Suc (Suc 0)) (?bw1, w)"
      using assms(4) b1 by (subst deleteBlocks.simps) simp
    with step2 show ?thesis by simp
  qed
  have "deleteBlocks rest 0 (bw, w) = deleteBlocks rest (Suc 0) (?bw1, w)"
    using assms(4) b0 by (subst deleteBlocks.simps) (simp add: MAX_TRANSACTION_WRITES_def)
  with step1 show ?thesis by simp
qed

lemma bw_deleted_ready:
  assumes "writerReady bw" and "length refs \<le> MAX_TRANSACTION_WRITES"
  shows "\<exists>bw' w'. bw_deleted refs (bw, w) = (None, (bw', w'))
           \<and> writerReady bw'
           \<and> pendingStore (bw', w') = applyWrites (map DeleteRow refs) (pendingStore (bw, w))
           \<and> bw_doc bw' = bw_doc bw \<and> bw_revision bw' = bw_revision bw
           \<and> w_heap w' = w_heap w"
proof (cases "length refs < MAX_TRANSACTION_WRITES - bw_count bw")
  case True
  then have lt: "bw_count bw + length refs < MAX_TRANSACTION_WRITES"
    and ne: "bw_count bw + length refs \<noteq> MAX_TRANSACTION_WRITES"
    and mn: "min (length refs) (MAX_TRANSACTION_WRITES - bw_count bw) = length refs"
    by arith+
  from assms(1) have opn: "\<not> wb_committed (bw_batch bw)"
    and cnt: "bw_count bw = length (wb_writes (bw_batch bw))"
    by (simp_all add: writerReady_def)
  have "bw_deleted refs (bw, w)
          = (None, (bw\<lparr>bw_batch := (bw_batch bw)\<lparr>wb_writes := wb_writes (bw_batch bw) @ map DeleteRow refs\<rparr>,
                        bw_count := bw_count bw + length refs\<rparr>, w))"
    using opn ne by (simp add: bw_deleted_def Let_def mn wbDeletes_open)
  then show ?thesis
    using opn cnt lt
    by (simp add: writerReady_def pendingStore_def applyWrites_append)
next
  case False
  let ?head = "take (MAX_TRANSACTION_WRITES - bw_count bw) refs"
  let ?rest = "drop (MAX_TRANSACTION_WRITES - bw_count bw) refs"
  let ?b = "(bw_batch bw)\<lparr>wb_writes := wb_writes (bw_batch bw) @ map DeleteRow ?head\<rparr>"
  let ?bw0 = "bw\<lparr>bw_batch := ?b, bw_count := bw_count bw + (MAX_TRANSACTION_WRITES - bw_count bw)\<rparr>"
  let ?w1 = "commitWrites (wb_writes ?b) w"
  let ?bw1 = "?bw0\<lparr>bw_batch := newWriteBatch, bw_count := 0\<rparr>"
  from assms(1) have opn: "\<not> wb_committed (bw_batch bw)"
    and cnt: "bw_count bw < MAX_TRANSACTION_WRITES"
    by (simp_all add: writerReady_def)
  from False have hc: "min (length refs) (MAX_TRANSACTION_WRITES - bw_count bw)
                         = MAX_TRANSACTION_WRITES - bw_count bw"
    by simp
  have fl: "flushBatch (?bw0, w) = (None, (?bw1, ?w1))"
    using opn by (simp add: flushBatch_open)
  have short': "length refs - (MAX_TRANSACTION_WRITES - bw_count bw) < MAX_TRANSACTION_WRITES"
    using assms(2) cnt by arith
  then have short: "length ?rest < MAX_TRANSACTION_WRITES"
    by (simp only: length_drop)
  have db: "deleteBlocks ?rest 0 (?bw1, ?w1)
              = (None, (?bw1\<lparr>bw_batch := (bw_batch ?bw1)\<lparr>wb_writes := map DeleteRow ?rest\<rparr>,
                              bw_count := length ?rest\<rparr>, ?w1))"
    by (rule deleteBlocks_short) (simp_all add: newWriteBatch_def short')
  have res: "bw_deleted refs (bw, w)
               = (None, (?bw1\<lparr>bw_batch := (bw_batch ?bw1)\<lparr>wb_writes := map DeleteRow ?rest\<rparr>,
                              bw_count := length ?rest\<rparr>, ?w1))"
    using opn cnt fl db
    by (simp add: bw_deleted_def Let_def hc wbDeletes_open)
  have "applyWrites (map DeleteRow ?rest) (applyWrites (wb_writes (bw_batch bw) @ map DeleteRow ?head) (w_store w))
          = applyWrites (map DeleteRow refs) (applyWrites (wb_writes (bw_batch bw)) (w_store w))"
  proof -
    have eq: "map DeleteRow refs = map DeleteRow ?head @ map DeleteRow ?rest"
      by (simp add: map_append [symmetric] del: map_append)
    show ?thesis
      by (subst eq) (simp add: applyWrites_def)
  qed
  then show ?thesis
    using res short'
    by (simp add: writerReady_def pendingStore_def newWriteBatch_def)
qed

lemma rowWrite_fold_strip:
  "a < length h \<Longrightarrow>
   rowWrite r revision (fold (\<lambda>a h. removeWatermelonInternalsAt h a) raws h) t a
     = rowWrite r revision h t a"
proof (induction raws arbitrary: h)
  case Nil
  then show ?case by simp
next
  case (Cons raw raws)
  then show ?case by (simp add: rowWrite_strip)
qed

lemma tableWrites_fold_strip:
  assumes "\<forall>a\<in>set (created (snd p) @ updated (snd p)). a < length h"
  shows "tableWrites r revision (fold (\<lambda>a h. removeWatermelonInternalsAt h a) raws h) delRefs p
           = tableWrites r revision h delRefs p"
  using assms by (simp add: tableWrites_def rowWrite_fold_strip)

lemma stageTable_ready:
  assumes rdy: "writerReady bw"
    and lt: "\<forall>a\<in>set (created (snd p) @ updated (snd p)). a < length (w_heap w)"
    and few: "\<forall>refs. map_of delRefs (fst p) = Some refs \<longrightarrow> length refs \<le> MAX_TRANSACTION_WRITES"
  shows "\<exists>bw' w'. stageTable delRefs p ((bw, w), d)
               = (None, (bw', w'),
                  (case map_of delRefs (fst p) of
                     None \<Rightarrow> d
                   | Some refs \<Rightarrow> objPut (fst p) (map dref_id refs) d))
           \<and> writerReady bw'
           \<and> pendingStore (bw', w')
               = applyWrites (tableWrites (BatchDoc (bw_doc bw)) (bw_revision bw) (w_heap w) delRefs p)
                   (pendingStore (bw, w))
           \<and> bw_doc bw' = bw_doc bw \<and> bw_revision bw' = bw_revision bw
           \<and> w_heap w' = fold (\<lambda>a h. removeWatermelonInternalsAt h a)
                            (created (snd p) @ updated (snd p)) (w_heap w)"
proof -
  let ?r = "BatchDoc (bw_doc bw)" and ?v = "bw_revision bw" and ?t = "fst p"
  from lt have ltc: "\<forall>a\<in>set (created (snd p)). a < length (w_heap w)"
    and ltu: "\<forall>a\<in>set (updated (snd p)). a < length (w_heap w)"
    by auto
  from stageRows_ready [OF rdy ltc, of ?t] obtain bw1 w1 where
    s1: "stageRows ?t (created (snd p)) (bw, w) = (None, (bw1, w1))"
    and r1: "writerReady bw1"
    and p1: "pendingStore (bw1, w1)
               = applyWrites (map (rowWrite ?r ?v (w_heap w) ?t) (created (snd p))) (pendingStore (bw, w))"
    and d1: "bw_doc bw1 = bw_doc bw" "bw_revision bw1 = bw_revision bw"
    and h1: "w_heap w1 = fold (\<lambda>a h. removeWatermelonInternalsAt h a) (created (snd p)) (w_heap w)"
    by blast
  have ltu1: "\<forall>a\<in>set (updated (snd p)). a < length (w_heap w1)"
    using ltu h1 by simp
  from stageRows_ready [OF r1 ltu1, of ?t] obtain bw2 w2 where
    s2: "stageRows ?t (updated (snd p)) (bw1, w1) = (None, (bw2, w2))"
    and r2: "writerReady bw2"
    and p2: "pendingStore (bw2, w2)
               = applyWrites (map (rowWrite (BatchDoc (bw_doc bw1)) (bw_revision bw1) (w_heap w1) ?t)
                                (updated (snd p))) (pendingStore (bw1, w1))"
    and d2: "bw_doc bw2 = bw_doc bw1" "bw_revision bw2 = bw_revision bw1"
    and h2: "w_heap w2 = fold (\<lambda>a h. removeWatermelonInternalsAt h a) (updated (snd p)) (w_heap w1)"
    by blast
  have same: "map (rowWrite (BatchDoc (bw_doc bw1)) (bw_revision bw1) (w_heap w1) ?t) (updated (snd p))
            = map (rowWrite ?r ?v (w_heap w) ?t) (updated (snd p))"
    using ltu by (simp add: d1 h1 rowWrite_fold_strip)
  have p12: "pendingStore (bw2, w2)
               = applyWrites (map (rowWrite ?r ?v (w_heap w) ?t) (created (snd p) @ updated (snd p)))
                   (pendingStore (bw, w))"
    using p2 [unfolded same p1] by (simp add: applyWrites_append)
  have h12: "w_heap w2 = fold (\<lambda>a h. removeWatermelonInternalsAt h a)
                            (created (snd p) @ updated (snd p)) (w_heap w)"
    using h1 h2 by simp
  show ?thesis
  proof (cases "map_of delRefs (fst p)")
    case None
    with s1 s2 r2 p12 d1 d2 h12 show ?thesis
      by (simp add: stageTable_def Let_def tableWrites_def)
  next
    case (Some refs)
    with few have "length (map dref_ref refs) \<le> MAX_TRANSACTION_WRITES" by simp
    from bw_deleted_ready [OF r2 this, of w2] obtain bw3 w3 where
      s3: "bw_deleted (map dref_ref refs) (bw2, w2) = (None, (bw3, w3))"
      and r3: "writerReady bw3"
      and p3: "pendingStore (bw3, w3)
                 = applyWrites (map DeleteRow (map dref_ref refs)) (pendingStore (bw2, w2))"
      and d3: "bw_doc bw3 = bw_doc bw2" "bw_revision bw3 = bw_revision bw2"
      and h3: "w_heap w3 = w_heap w2"
      by blast
    from Some s1 s2 s3 r3 p3 p12 d1 d2 d3 h3 h12 show ?thesis
      by (simp add: stageTable_def Let_def tableWrites_def applyWrites_append comp_def)
  qed
qed

lemma stageTables_ready:
  assumes "writerReady bw"
    and "\<forall>a\<in>set (pushedRows chs). a < length (w_heap w)"
    and "\<forall>p\<in>set chs. \<forall>refs. map_of delRefs (fst p) = Some refs
            \<longrightarrow> length refs \<le> MAX_TRANSACTION_WRITES"
  shows "\<exists>bw' w'. stageTables delRefs chs ((bw, w), d)
               = (None, (bw', w'), recordedDeletes delRefs chs d)
           \<and> writerReady bw'
           \<and> pendingStore (bw', w')
               = applyWrites (changeWrites (BatchDoc (bw_doc bw)) (bw_revision bw) (w_heap w) delRefs chs)
                   (pendingStore (bw, w))
           \<and> bw_doc bw' = bw_doc bw \<and> bw_revision bw' = bw_revision bw
           \<and> w_heap w' = fold (\<lambda>a h. removeWatermelonInternalsAt h a) (pushedRows chs) (w_heap w)"
  using assms
proof (induction chs arbitrary: bw w d)
  case Nil
  then show ?case by (simp add: recordedDeletes_def changeWrites_def pushedRows_def)
next
  case (Cons p chs)
  let ?d1 = "case map_of delRefs (fst p) of
               None \<Rightarrow> d
             | Some refs \<Rightarrow> objPut (fst p) (map dref_id refs) d"
  from Cons.prems(2) have ltp: "\<forall>a\<in>set (created (snd p) @ updated (snd p)). a < length (w_heap w)"
    and ltr: "\<forall>a\<in>set (pushedRows chs). a < length (w_heap w)"
    by (auto simp: pushedRows_def)
  from Cons.prems(3) have fewp: "\<forall>refs. map_of delRefs (fst p) = Some refs
            \<longrightarrow> length refs \<le> MAX_TRANSACTION_WRITES"
    and fewr: "\<forall>p\<in>set chs. \<forall>refs. map_of delRefs (fst p) = Some refs
            \<longrightarrow> length refs \<le> MAX_TRANSACTION_WRITES"
    by auto
  from stageTable_ready [OF Cons.prems(1) ltp fewp, of d] obtain bw1 w1 where
    s1: "stageTable delRefs p ((bw, w), d) = (None, (bw1, w1), ?d1)"
    and r1: "writerReady bw1"
    and p1: "pendingStore (bw1, w1)
               = applyWrites (tableWrites (BatchDoc (bw_doc bw)) (bw_revision bw) (w_heap w) delRefs p)
                   (pendingStore (bw, w))"
    and d1: "bw_doc bw1 = bw_doc bw" "bw_revision bw1 = bw_revision bw"
    and h1: "w_heap w1 = fold (\<lambda>a h. removeWatermelonInternalsAt h a)
                            (created (snd p) @ updated (snd p)) (w_heap w)"
    by blast
  have ltr1: "\<forall>a\<in>set (pushedRows chs). a < length (w_heap w1)"
    using ltr h1 by simp
  from Cons.IH [OF r1 ltr1 fewr, of ?d1] obtain bw' w' where
    s2: "stageTables delRefs chs ((bw1, w1), ?d1) = (None, (bw', w'), recordedDeletes delRefs chs ?d1)"
    and r2: "writerReady bw'"
    and p2: "pendingStore (bw', w')
               = applyWrites (changeWrites (BatchDoc (bw_doc bw1)) (bw_revision bw1) (w_heap w1) delRefs chs)
                   (pendingStore (bw1, w1))"
    and d2: "bw_doc bw' = bw_doc bw1" "bw_revision bw' = bw_revision bw1"
    and h2: "w_heap w' = fold (\<lambda>a h. removeWatermelonInternalsAt h a) (pushedRows chs) (w_heap w1)"
    by blast
  have same: "changeWrites (BatchDoc (bw_doc bw1)) (bw_revision bw1) (w_heap w1) delRefs chs
            = changeWrites (BatchDoc (bw_doc bw)) (bw_revision bw) (w_heap w) delRefs chs"
  proof -
    have "tableWrites (BatchDoc (bw_doc bw)) (bw_revision bw) (w_heap w1) delRefs q
            = tableWrites (BatchDoc (bw_doc bw)) (bw_revision bw) (w_heap w) delRefs q"
      if "q \<in> set chs" for q
    proof -
      from that ltr have "\<forall>a\<in>set (created (snd q) @ updated (snd q)). a < length (w_heap w)"
        by (auto simp: pushedRows_def)
      then show ?thesis unfolding h1 by (rule tableWrites_fold_strip)
    qed
    then show ?thesis by (simp add: changeWrites_def d1 cong: map_cong)
  qed
  show ?case
    using s1 s2 r2 p2 [unfolded same p1] d1 d2 h1 h2
    by (simp add: recordedDeletes_def changeWrites_def pushedRows_def applyWrites_append)
qed

subsection \<open>The writes of a push\<close>






lemma rollbackBlocks_arrays:
  assumes "rollbackRefs \<noteq> []"
  shows "rollbackBlocks rollbackRefs 0 w = (Some InvalidDocumentReference, w)"
proof -
  obtain x xs where r: "rollbackRefs = x # xs" using assms by (cases rollbackRefs) auto
  have "rollbackBlock (take MAX_TRANSACTION_WRITES (drop (0 * MAX_TRANSACTION_WRITES) rollbackRefs)) w
          = Inl InvalidDocumentReference"
    by (simp add: r rollbackBlock_def MAX_TRANSACTION_WRITES_def newWriteBatch_def)
  then show ?thesis
    by (subst rollbackBlocks.simps) (simp add: MAX_TRANSACTION_WRITES_def)
qed

lemma newBatchWriter_sel [simp]:
  "bw_doc (newBatchWriter token revision) = token"
  "bw_revision (newBatchWriter token revision) = revision"
  by (simp_all add: newBatchWriter_def)

lemma pushBatchedChanges_staging:
  assumes rev: "revisionFromBaseSnap (baseData (w_store w)) = (lastPulledAt, batchTokens)"
    and lt: "\<forall>a\<in>set (pushedRows chs). a < length (w_heap w)"
    and few: "\<forall>p\<in>set chs. \<forall>refs. map_of delRefs (fst p) = Some refs
               \<longrightarrow> length refs \<le> MAX_TRANSACTION_WRITES"
  shows "\<exists>w2.
           w_store w2 = applyWrites (changeWrites (BatchDoc (newBatchId ev)) lastPulledAt (w_heap w)
                                       delRefs chs) (w_store w)
         \<and> pushBatchedChanges ev lastPulledAt chs delRefs w
             = (case integrate ev lastPulledAt lastPulledAt batchTokens
                       (recordedDeletes delRefs chs []) of
                  Inr ws \<Rightarrow> (None, commitWrites ws w2)
                | Inl err \<Rightarrow> rollback (newBatchId ev) chs err w2)"
proof -
  from stageTables_ready [OF writerReady_new lt few, of "newBatchId ev" lastPulledAt "[]"]
  obtain bw1 w1 where
    st: "stageTables delRefs chs ((newBatchWriter (newBatchId ev) lastPulledAt, w), [])
           = (None, (bw1, w1), recordedDeletes delRefs chs [])"
    and r1: "writerReady bw1"
    and p1: "pendingStore (bw1, w1)
               = applyWrites (changeWrites (BatchDoc (newBatchId ev)) lastPulledAt (w_heap w) delRefs chs)
                   (w_store w)"
    by auto
  from r1 have fl: "flush (bw1, w1)
                      = (None, (bw1\<lparr>bw_batch := newWriteBatch, bw_count := 0\<rparr>,
                                commitWrites (wb_writes (bw_batch bw1)) w1))"
    by (simp add: flush_def flushBatch_open writerReady_def)
  let ?w2 = "commitWrites (wb_writes (bw_batch bw1)) w1"
  have s2: "w_store ?w2 = applyWrites (changeWrites (BatchDoc (newBatchId ev)) lastPulledAt (w_heap w)
                                       delRefs chs) (w_store w)"
    using p1 by (simp add: pendingStore_def)
  have "pushBatchedChanges ev lastPulledAt chs delRefs w
             = (case integrate ev lastPulledAt lastPulledAt batchTokens
                       (recordedDeletes delRefs chs []) of
                  Inr ws \<Rightarrow> (None, commitWrites ws ?w2)
                | Inl err \<Rightarrow> rollback (newBatchId ev) chs err ?w2)"
    using rev st fl by (simp add: pushBatchedChanges_def Let_def)
  with s2 show ?thesis by blast
qed

lemma applyWrite_row_frame:
  "baseData (applyWrite (SetRow ref d) fs) = baseData fs"
  "batchDocs (applyWrite (SetRow ref d) fs) = batchDocs fs"
  "deleteDocs (applyWrite (SetRow ref d) fs) = deleteDocs fs"
  "baseData (applyWrite (DeleteRow ref) fs) = baseData fs"
  "batchDocs (applyWrite (DeleteRow ref) fs) = batchDocs fs"
  "deleteDocs (applyWrite (DeleteRow ref) fs) = deleteDocs fs"
  by simp_all

lemma rowWrites_frame:
  "list_all isRowWrite ws \<Longrightarrow>
   baseData (applyWrites ws fs) = baseData fs
   \<and> batchDocs (applyWrites ws fs) = batchDocs fs
   \<and> deleteDocs (applyWrites ws fs) = deleteDocs fs"
proof (induction ws arbitrary: fs)
  case Nil
  then show ?case by simp
next
  case (Cons x ws)
  from Cons.prems have ih: "baseData (applyWrites ws (applyWrite x fs)) = baseData (applyWrite x fs)
   \<and> batchDocs (applyWrites ws (applyWrite x fs)) = batchDocs (applyWrite x fs)
   \<and> deleteDocs (applyWrites ws (applyWrite x fs)) = deleteDocs (applyWrite x fs)"
    using Cons.IH by simp
  from Cons.prems have "isRowWrite x" by simp
  then have "baseData (applyWrite x fs) = baseData fs
     \<and> batchDocs (applyWrite x fs) = batchDocs fs \<and> deleteDocs (applyWrite x fs) = deleteDocs fs"
    by (cases x) simp_all
  with ih show ?case by (simp add: applyWrites_Cons)
qed

lemma tableWrites_rows: "list_all isRowWrite (tableWrites r revision h delRefs p)"
  by (cases "map_of delRefs (fst p)")
     (auto simp: tableWrites_def rowWrite_def list_all_iff)

lemma changeWrites_rows: "list_all isRowWrite (changeWrites r revision h delRefs chs)"
  by (induction chs) (simp_all add: changeWrites_def tableWrites_rows)

text \<open>
  C1 (the claim fails on the code). For every side-batch push whose revision check passes,
  whose changeset names at least one table, and whose integrating transaction is rejected
  by the store: the push ends with the error of \<^verbatim>\<open>batch.delete\<close> called on an array, not with
  the error of the transaction, and the store afterwards is the store after staging:
  every staged table document is still there.
\<close>

theorem C1_rollback_deletes_nothing:
  assumes "revisionFromBaseSnap (baseData (w_store w)) = (lastPulledAt, batchTokens)"
    and "transactionFails ev"
    and "chs \<noteq> []"
    and "\<forall>a\<in>set (pushedRows chs). a < length (w_heap w)"
    and "\<forall>p\<in>set chs. \<forall>refs. map_of delRefs (fst p) = Some refs
           \<longrightarrow> length refs \<le> MAX_TRANSACTION_WRITES"
  shows "fst (pushBatchedChanges ev lastPulledAt chs delRefs w) = Some InvalidDocumentReference
       \<and> w_store (snd (pushBatchedChanges ev lastPulledAt chs delRefs w))
           = applyWrites (changeWrites (BatchDoc (newBatchId ev)) lastPulledAt (w_heap w) delRefs chs)
               (w_store w)"
proof -
  from pushBatchedChanges_staging [OF assms(1) assms(4) assms(5), of ev] obtain w2 where
    s2: "w_store w2 = applyWrites (changeWrites (BatchDoc (newBatchId ev)) lastPulledAt (w_heap w)
                                       delRefs chs) (w_store w)"
    and res: "pushBatchedChanges ev lastPulledAt chs delRefs w
             = (case integrate ev lastPulledAt lastPulledAt batchTokens
                       (recordedDeletes delRefs chs []) of
                  Inr ws \<Rightarrow> (None, commitWrites ws w2)
                | Inl err \<Rightarrow> rollback (newBatchId ev) chs err w2)"
    by (elim exE conjE)
  have int: "integrate ev lastPulledAt lastPulledAt batchTokens (recordedDeletes delRefs chs [])
               = Inl TransactionFailed"
    using assms(2) by (simp add: integrate_def)
  have rb: "rollback (newBatchId ev) chs TransactionFailed w2 = (Some InvalidDocumentReference, w2)"
    using assms(3) by (simp add: rollback_def Let_def rollbackBlocks_arrays)
  have "pushBatchedChanges ev lastPulledAt chs delRefs w = (Some InvalidDocumentReference, w2)"
    unfolding res int by (simp add: rb)
  with s2 show ?thesis by simp
qed

lemma many_nodel: "findDeleteRefs (w_store (manyWorld n)) (manyChanges m) = []"
  by (simp add: findDeleteRefs_def manyChanges_def findTableDeleteRefs_def existingRefs_def Let_def)

lemma many_count: "countChanges (manyChanges n) (delChanges []) = n"
  by (simp add: countChanges_def manyChanges_def delChanges_def)

lemma many_path:
  "MAX_TRANSACTION_WRITES \<le> n \<Longrightarrow>
   pushChanges ev lastPulledAt (manyChanges n) (manyWorld n)
     = pushBatchedChanges ev lastPulledAt (manyChanges n) [] (manyWorld n)"
  by (simp add: pushChanges_def Let_def many_nodel many_count)

lemma many_wf: "\<forall>a\<in>set (pushedRows (manyChanges n)). a < length (w_heap (manyWorld n))"
  by (simp add: pushedRows_def manyChanges_def manyWorld_def manyRows_def)

lemma many_last:
  "changeWrites r revision (w_heap (manyWorld (Suc n))) [] (manyChanges (Suc n))
     = map (rowWrite r revision (w_heap (manyWorld (Suc n))) ''entries'') [0..<n]
       @ [SetRow (DocRef r ''entries'' (encodeURIComponent (decimalString n)))
            \<lparr>row_id = decimalString n, status = None, changed = None, melonFireChange = None,
             melonFireRevision = Some revision, columns = [(''data'', ''hello'')]\<rparr>]"
proof -
  have "manyRows (Suc n) ! n = clientRow (decimalString n) ''created'' ''hello''"
    unfolding manyRows_def by (subst nth_map) (simp_all add: nth_append)
  then show ?thesis
    by (simp add: changeWrites_def tableWrites_def manyChanges_def manyWorld_def rowWrite_def
                  pushedDoc_def clientRow_def removeWatermelonInternals_def)
qed

lemma many_store [simp]: "w_store (manyWorld n) = emptyStore"
  by (simp add: manyWorld_def)

lemma many_ne: "manyChanges n \<noteq> []"
  by (simp add: manyChanges_def)

lemma emptyStore_revision: "revisionFromBaseSnap (baseData emptyStore) = (1, None)"
  by (simp add: emptyStore_def revisionFromBaseSnap_def MIN_REVISION_def)

lemma last_write_wins:
  "map_of (tableDocs (applyWrites (ws @ [SetRow ref d]) fs)) ref = Some d"
  by (simp add: applyWrites_append applyWrites_Cons update_conv')

lemma decimalString_499: "decimalString 499 = ''499''"
  by code_simp

lemma encode_499: "encodeURIComponent ''499'' = ''499''"
  by code_simp

theorem C1_rollback_deletes_nothing_witness:
  "transactionFails failingEnv
   \<and> fst (pushChanges failingEnv 1 (manyChanges 500) (manyWorld 500))
       = Some InvalidDocumentReference
   \<and> map_of (tableDocs (w_store (snd (pushChanges failingEnv 1 (manyChanges 500) (manyWorld 500)))))
       (DocRef (BatchDoc ''batch2'') ''entries'' ''499'')
       = Some \<lparr>row_id = ''499'', status = None, changed = None, melonFireChange = None,
               melonFireRevision = Some 1, columns = [(''data'', ''hello'')]\<rparr>
   \<and> baseData (w_store (snd (pushChanges failingEnv 1 (manyChanges 500) (manyWorld 500)))) = None"
proof -
  have n: "(500::nat) = Suc 499" by simp
  let ?chs = "manyChanges (Suc 499)" and ?w = "manyWorld (Suc 499)"
  have path: "pushChanges failingEnv 1 ?chs ?w = pushBatchedChanges failingEnv 1 ?chs [] ?w"
    by (rule many_path) (simp add: MAX_TRANSACTION_WRITES_def)
  have h1: "revisionFromBaseSnap (baseData (w_store ?w)) = (1, None)"
    by (simp only: many_store emptyStore_revision)
  have h2: "transactionFails failingEnv" by (simp add: failingEnv_def)
  have h5: "\<forall>p\<in>set ?chs. \<forall>refs. map_of [] (fst p) = Some refs
           \<longrightarrow> length (refs :: DeleteRef list) \<le> MAX_TRANSACTION_WRITES"
    by simp
  have tok: "newBatchId failingEnv = ''batch2''"
    by (simp add: failingEnv_def exampleEnv_def)
  from C1_rollback_deletes_nothing [OF h1 h2 many_ne many_wf h5] have
    e: "fst (pushBatchedChanges failingEnv 1 ?chs [] ?w) = Some InvalidDocumentReference"
    and s: "w_store (snd (pushBatchedChanges failingEnv 1 ?chs [] ?w))
           = applyWrites (changeWrites (BatchDoc ''batch2'') 1 (w_heap ?w) [] ?chs) (w_store ?w)"
    by (simp_all only: tok)
  have doc: "map_of (tableDocs (w_store (snd (pushBatchedChanges failingEnv 1 ?chs [] ?w))))
       (DocRef (BatchDoc ''batch2'') ''entries'' ''499'')
       = Some \<lparr>row_id = ''499'', status = None, changed = None, melonFireChange = None,
               melonFireRevision = Some 1, columns = [(''data'', ''hello'')]\<rparr>"
    unfolding s many_last decimalString_499 encode_499
    by (rule last_write_wins)
  have "baseData (w_store (snd (pushBatchedChanges failingEnv 1 ?chs [] ?w))) = baseData emptyStore"
    unfolding s many_store using rowWrites_frame [OF changeWrites_rows] by blast
  then have base: "baseData (w_store (snd (pushBatchedChanges failingEnv 1 ?chs [] ?w))) = None"
    by (simp only: emptyStore_def firestore.simps)
  from h2 e doc base show ?thesis unfolding n path by (intro conjI)
qed

subsection \<open>The unawaited flush of the batch writer\<close>

lemma wbDeletes_Nil [simp]: "wbDeletes [] b = Inr b"
  by simp

text \<open>
  C9 (the claim fails on the code). When \<open>deleted\<close> receives \<open>2 * 500\<close> references on a
  fresh writer, it returns normally with the count at 500 (not reset to 0, not a
  remainder below 500) and with a write batch that has already been committed: the first
  500 deletes were committed by the awaited flush, the next 500 by the flush that is not
  awaited. Every later use of the writer throws: \<open>flush\<close>, \<open>created\<close> and \<open>updated\<close> fail on
  the committed batch.
\<close>

theorem C9_unawaited_flush_leaves_committed_batch:
  assumes fresh: "bw_batch bw = newWriteBatch" "bw_count bw = 0"
    and len: "length refs = 2 * MAX_TRANSACTION_WRITES"
  shows "bw_deleted refs (bw, w)
           = (None,
              (bw\<lparr>bw_batch := \<lparr>wb_writes = map DeleteRow (drop MAX_TRANSACTION_WRITES refs),
                               wb_committed = True\<rparr>,
                   bw_count := MAX_TRANSACTION_WRITES\<rparr>,
               commitWrites (map DeleteRow (drop MAX_TRANSACTION_WRITES refs))
                 (commitWrites (map DeleteRow (take MAX_TRANSACTION_WRITES refs)) w)))
       \<and> fst (flush (snd (bw_deleted refs (bw, w)))) = Some BatchAlreadyCommitted
       \<and> fst (bw_created t record (snd (bw_deleted refs (bw, w)))) = Some BatchAlreadyCommitted
       \<and> fst (bw_updated t record (snd (bw_deleted refs (bw, w)))) = Some BatchAlreadyCommitted"
proof -
  let ?M = MAX_TRANSACTION_WRITES
  let ?head = "take ?M refs" and ?rest = "drop ?M refs"
  let ?w1 = "commitWrites (map DeleteRow ?head) w"
  let ?w2 = "commitWrites (map DeleteRow ?rest) ?w1"
  let ?bw0 = "bw\<lparr>bw_batch := (bw_batch bw)\<lparr>wb_writes := wb_writes (bw_batch bw) @ map DeleteRow ?head\<rparr>,
                  bw_count := bw_count bw + ?M\<rparr>"
  let ?bw1 = "?bw0\<lparr>bw_batch := newWriteBatch, bw_count := 0\<rparr>"
  let ?bw2 = "bw\<lparr>bw_batch := \<lparr>wb_writes = map DeleteRow ?rest, wb_committed = True\<rparr>,
                  bw_count := ?M\<rparr>"
  have Mpos: "0 < ?M" by (simp add: MAX_TRANSACTION_WRITES_def)
  have lrest: "length ?rest = ?M" using len by simp
  have hc: "min (length refs) (?M - bw_count bw) = ?M"
    using fresh(2) len by simp
  have opn: "\<not> wb_committed (bw_batch bw)"
    using fresh(1) by (simp add: newWriteBatch_def)
  have fl: "flushBatch (?bw0, w) = (None, (?bw1, ?w1))"
    using opn fresh(1) by (simp add: flushBatch_open newWriteBatch_def)
  have bw1: "?bw1 = bw" using fresh
    by (cases bw) (simp add: newWriteBatch_def)
  have b0: "deleteBlock (take ?M (drop (0 * ?M) ?rest)) (bw, ?w1) = Inr (?bw2, ?w2)"
    using fresh lrest
    by (simp add: deleteBlock_def wbDeletes_open newWriteBatch_def Let_def
                  flushBatchDetached_def wbCommit_def)
  have b1: "deleteBlock (take ?M (drop (Suc 0 * ?M) ?rest)) (?bw2, ?w2) = Inr (?bw2, ?w2)"
    using lrest
    by (simp add: deleteBlock_def Let_def flushBatchDetached_def wbCommit_def)
  have step2: "deleteBlocks ?rest (Suc (Suc 0)) (?bw2, ?w2) = (None, (?bw2, ?w2))"
    using lrest by (subst deleteBlocks.simps) simp
  have step1: "deleteBlocks ?rest (Suc 0) (?bw2, ?w2) = (None, (?bw2, ?w2))"
    using lrest Mpos b1 step2 by (subst deleteBlocks.simps) simp
  have step0: "deleteBlocks ?rest 0 (bw, ?w1) = (None, (?bw2, ?w2))"
    using lrest Mpos b0 step1 by (subst deleteBlocks.simps) simp
  have hc': "min (length refs) ?M = ?M" using len by simp
  have bw1': "bw\<lparr>bw_batch := newWriteBatch, bw_count := 0\<rparr> = bw"
    using fresh by (cases bw) simp
  have res: "bw_deleted refs (bw, w) = (None, (?bw2, ?w2))"
    using opn fresh(2) fl step0
    by (simp add: bw_deleted_def Let_def hc' wbDeletes_open bw1')
  have f: "fst (flush (?bw2, ?w2)) = Some BatchAlreadyCommitted"
    by (simp add: flush_def flushBatch_def wbCommit_def)
  have c: "fst (bw_write t record (?bw2, ?w2)) = Some BatchAlreadyCommitted"
    by (simp add: bw_write_def Let_def wbSet_def)
  from res f c show ?thesis
    by (simp add: bw_created_def bw_updated_def)
qed

lemma manyRefs_length [simp]: "length (manyRefs n) = n"
  by (simp add: manyRefs_def)

theorem C9_unawaited_flush_leaves_committed_batch_witness:
  "bw_batch (newBatchWriter ''batch2'' 2) = newWriteBatch
   \<and> bw_count (newBatchWriter ''batch2'' 2) = 0
   \<and> length (manyRefs 1000) = 2 * MAX_TRANSACTION_WRITES
   \<and> fst (bw_deleted (manyRefs 1000) (newBatchWriter ''batch2'' 2, manyWorld 0)) = None
   \<and> bw_count (fst (snd (bw_deleted (manyRefs 1000) (newBatchWriter ''batch2'' 2, manyWorld 0))))
       = 500
   \<and> wb_committed (bw_batch (fst (snd (bw_deleted (manyRefs 1000)
                                         (newBatchWriter ''batch2'' 2, manyWorld 0)))))
   \<and> map length (w_commits (snd (snd (bw_deleted (manyRefs 1000)
                                        (newBatchWriter ''batch2'' 2, manyWorld 0)))))
       = [500, 500]
   \<and> fst (flush (snd (bw_deleted (manyRefs 1000) (newBatchWriter ''batch2'' 2, manyWorld 0))))
       = Some BatchAlreadyCommitted"
proof -
  have h1: "bw_batch (newBatchWriter ''batch2'' 2) = newWriteBatch"
    and h2: "bw_count (newBatchWriter ''batch2'' 2) = 0"
    by (simp_all add: newBatchWriter_def)
  have h3: "length (manyRefs 1000) = 2 * MAX_TRANSACTION_WRITES"
    by (simp add: MAX_TRANSACTION_WRITES_def)
  have c0: "w_commits (manyWorld 0) = []" by (simp add: manyWorld_def)
  note r = C9_unawaited_flush_leaves_committed_batch [OF h1 h2 h3, of "manyWorld 0"]
  from r have res: "bw_deleted (manyRefs 1000) (newBatchWriter ''batch2'' 2, manyWorld 0)
           = (None,
              ((newBatchWriter ''batch2'' 2)
                  \<lparr>bw_batch := \<lparr>wb_writes = map DeleteRow (drop MAX_TRANSACTION_WRITES (manyRefs 1000)),
                               wb_committed = True\<rparr>,
                   bw_count := MAX_TRANSACTION_WRITES\<rparr>,
               commitWrites (map DeleteRow (drop MAX_TRANSACTION_WRITES (manyRefs 1000)))
                 (commitWrites (map DeleteRow (take MAX_TRANSACTION_WRITES (manyRefs 1000)))
                    (manyWorld 0))))"
    by (rule conjunct1)
  from r have fl: "fst (flush (snd (bw_deleted (manyRefs 1000) (newBatchWriter ''batch2'' 2, manyWorld 0))))
       = Some BatchAlreadyCommitted"
    by (rule conjunct2 [THEN conjunct1])
  have a: "fst (bw_deleted (manyRefs 1000) (newBatchWriter ''batch2'' 2, manyWorld 0)) = None"
    and b: "bw_count (fst (snd (bw_deleted (manyRefs 1000) (newBatchWriter ''batch2'' 2, manyWorld 0))))
       = 500"
    and c: "wb_committed (bw_batch (fst (snd (bw_deleted (manyRefs 1000)
                                         (newBatchWriter ''batch2'' 2, manyWorld 0)))))"
    unfolding res by (simp_all add: MAX_TRANSACTION_WRITES_def)
  have d: "map length (w_commits (snd (snd (bw_deleted (manyRefs 1000)
                                        (newBatchWriter ''batch2'' 2, manyWorld 0)))))
       = [500, 500]"
    unfolding res by (simp add: c0 MAX_TRANSACTION_WRITES_def)
  from h1 h2 h3 a b c d fl show ?thesis by (intro conjI)
qed

subsection \<open>Ids that contain a percent sign\<close>

text \<open>
  C5 (the claim fails on the code). A row whose id is \<open>100%\<close> is pushed under the document
  key \<open>100%25\<close>, the percent-encoding of its id, with the id itself in the \<open>id\<close> field; but
  a pull afterwards, from the beginning or from the pushed revision, throws a URIError
  instead of returning the row: the merge helper applies \<open>decodeURIComponent\<close> to the stored
  \<open>id\<close> field, which was never encoded.
\<close>

theorem C5_percent_id_breaks_pull:
  "fst (pushChanges exampleEnv 1 percentChanges percentWorld) = None
   \<and> tableDocs (w_store (snd (pushChanges exampleEnv 1 percentChanges percentWorld)))
       = [(DocRef BaseDoc ''entries'' ''100%25'',
           \<lparr>row_id = ''100%'', status = None, changed = None, melonFireChange = None,
            melonFireRevision = Some 1, columns = [(''data'', ''hello'')]\<rparr>)]
   \<and> encodeURIComponent ''100%'' = ''100%25''
   \<and> decodeURIComponent ''100%25'' = Some ''100%''
   \<and> decodeURIComponent ''100%'' = None
   \<and> pullChanges (w_store (snd (pushChanges exampleEnv 1 percentChanges percentWorld)))
         [''entries''] None = Inl URIError
   \<and> pullChanges (w_store (snd (pushChanges exampleEnv 1 percentChanges percentWorld)))
         [''entries''] (Some 1) = Inl URIError"
  by code_simp

subsection \<open>The encoding of ids is injective\<close>








lemma decodeURIComponent_plain:
  "CHR ''%'' \<notin> set s \<Longrightarrow> decodeURIComponent s = Some s"
  by (induction s) auto

subsection \<open>The discovered delete references\<close>

lemma existingRefs_append [simp]:
  "existingRefs fs (a @ b) = existingRefs fs a @ existingRefs fs b"
  by (simp add: existingRefs_def)





lemma batchSnaps_set: "set (batchSnaps fs) = fst ` set (batchDocs fs)"
  by (simp add: batchSnaps_def)



subsection \<open>The table documents after the writes of a push\<close>












lemma tableRows_map_of:
  "map_of chs t = Some tc \<Longrightarrow> created tc @ updated tc = tableRows chs t"
  by (simp add: tableRows_def)


subsection \<open>The documents of the pushed revision\<close>



lemma pushedDoc_sel [simp]:
  "row_id (pushedDoc r h a) = row_id (h ! a)"
  "melonFireRevision (pushedDoc r h a) = Some r"
  "removeMelonFields (removeWatermelonInternals (pushedDoc r h a)) = returnedRow (h ! a)"
  by (simp_all add: pushedDoc_def removeWatermelonInternals_def removeMelonFields_def returnedRow_def)





subsection \<open>The merged maps are keyed by the decoded ids of their rows\<close>







subsection \<open>Marking the deleted ids\<close>







subsection \<open>The pull of one revision\<close>





subsection \<open>The store after a push\<close>











subsection \<open>The merged map after a push\<close>




subsection \<open>The values of a merged map\<close>





subsection \<open>The changeset pulled after a push\<close>





subsection \<open>The writer after an unawaited flush\<close>















subsection \<open>A push followed by a pull of the pushed revision\<close>


lemma deletedIds_entry:
  assumes "distinct (map fst chs)" and "p \<in> set chs"
  shows "deletedIds chs (fst p) = deleted (snd p)"
proof -
  from assms have "map_of chs (fst p) = Some (snd p)" by simp
  then show ?thesis by (simp add: deletedIds_def)
qed





subsection \<open>The round trip of a push and a pull\<close>




subsection \<open>The caller's rows: copies on the inline path, mutation on the side-batch path\<close>











end
